theory Spec2Isabelle
  imports Main
begin

section \<open>Go types, struct fields and values as seen through reflection\<close>

text \<open>
  The binder of \<^verbatim>\<open>binder.go\<close> works on \<^verbatim>\<open>reflect.Type\<close> and \<^verbatim>\<open>reflect.Value\<close>.
  A type is modelled by its structure; the named types the code compares against
  (\<^verbatim>\<open>time.Duration\<close>, \<^verbatim>\<open>time.Time\<close>, \<^verbatim>\<open>gin.Context\<close>, \<^verbatim>\<open>error\<close>) are distinguished,
  struct types carry their name (empty for a struct literal type), and a struct field
  carries what \<^verbatim>\<open>reflect.StructField\<close> exposes: name, exportedness, the anonymous
  (embedded) flag, the tag as key/value pairs in their written order, and the type.
\<close>

datatype kind =
    KBool | KInt | KInt8 | KInt16 | KInt32 | KInt64
  | KUint | KUint8 | KUint16 | KUint32 | KUint64 | KUintptr
  | KFloat32 | KFloat64 | KInterface | KMap | KPointer | KSlice | KString | KStruct

datatype gotype =
    TBool | TInt | TInt8 | TInt16 | TInt32 | TInt64
  | TUint | TUint8 | TUint16 | TUint32 | TUint64 | TUintptr
  | TFloat32 | TFloat64 | TString
  | TDuration
  | TError
  | TIface
  | TPtr gotype
  | TSlice gotype
  | TMap gotype gotype
  | TStruct string "field list"
and field =
    Field (Name: string) (IsExported: bool) (Anonymous: bool)
          (Tag: "(string \<times> string) list") (Type: gotype)

primrec Kind :: "gotype \<Rightarrow> kind" where
  "Kind TBool = KBool"
| "Kind TInt = KInt"
| "Kind TInt8 = KInt8"
| "Kind TInt16 = KInt16"
| "Kind TInt32 = KInt32"
| "Kind TInt64 = KInt64"
| "Kind TUint = KUint"
| "Kind TUint8 = KUint8"
| "Kind TUint16 = KUint16"
| "Kind TUint32 = KUint32"
| "Kind TUint64 = KUint64"
| "Kind TUintptr = KUintptr"
| "Kind TFloat32 = KFloat32"
| "Kind TFloat64 = KFloat64"
| "Kind TString = KString"
| "Kind TDuration = KInt64"
| "Kind TError = KInterface"
| "Kind TIface = KInterface"
| "Kind (TPtr t) = KPointer"
| "Kind (TSlice t) = KSlice"
| "Kind (TMap k v) = KMap"
| "Kind (TStruct n fs) = KStruct"

text \<open>\<^verbatim>\<open>sf.Tag.Lookup(key)\<close>: the value of the first pair with that key.\<close>

definition Lookup :: "field \<Rightarrow> string \<Rightarrow> string option" where
  "Lookup sf key = map_of (Tag sf) key"

text \<open>
  Values. Signed integers of every width are \<open>VInt\<close>, unsigned ones \<open>VUint\<close>; a float is
  its IEEE-754 binary64 bit pattern; a pointer is nil (\<open>None\<close>) or points to a value;
  slices, maps and interface values are nil or hold their contents.
\<close>

datatype goval =
    VBool bool
  | VInt int
  | VUint nat
  | VFloat nat
  | VString string
  | VPtr "goval option"
  | VSlice "goval list option"
  | VMap "(goval \<times> goval) list option"
  | VIface "goval option"
  | VStruct "goval list"

text \<open>\<^verbatim>\<open>reflect.Zero(ty)\<close>.\<close>

primrec Zero :: "gotype \<Rightarrow> goval" and Zero_field :: "field \<Rightarrow> goval" where
  "Zero TBool = VBool False"
| "Zero TInt = VInt 0"
| "Zero TInt8 = VInt 0"
| "Zero TInt16 = VInt 0"
| "Zero TInt32 = VInt 0"
| "Zero TInt64 = VInt 0"
| "Zero TUint = VUint 0"
| "Zero TUint8 = VUint 0"
| "Zero TUint16 = VUint 0"
| "Zero TUint32 = VUint 0"
| "Zero TUint64 = VUint 0"
| "Zero TUintptr = VUint 0"
| "Zero TFloat32 = VFloat 0"
| "Zero TFloat64 = VFloat 0"
| "Zero TString = VString []"
| "Zero TDuration = VInt 0"
| "Zero TError = VIface None"
| "Zero TIface = VIface None"
| "Zero (TPtr t) = VPtr None"
| "Zero (TSlice t) = VSlice None"
| "Zero (TMap k v) = VMap None"
| "Zero (TStruct n fs) = VStruct (map Zero_field fs)"
| "Zero_field (Field nm ex an tg ty) = Zero ty"

text \<open>
  \<^verbatim>\<open>reflect.Value.IsZero\<close> (Go 1.22 and later), on a value of the given type: a number is
  zero when it compares equal to 0, so the float \<^verbatim>\<open>-0.0\<close> (sign bit only) is zero as well
  as \<^verbatim>\<open>+0.0\<close>; pointers, slices, maps and interfaces are zero when nil; a struct is zero
  when each of its fields other than the blank ones (named \<^verbatim>\<open>_\<close>) is. A struct value has
  a struct type with the same number of fields, so the equations for a struct value of
  another type and for a value with fewer fields are never reached from Go.
\<close>

fun IsZero :: "gotype \<Rightarrow> goval \<Rightarrow> bool"
and IsZeroFields :: "field list \<Rightarrow> goval list \<Rightarrow> bool"
and IsZeroField :: "field \<Rightarrow> goval \<Rightarrow> bool" where
  "IsZero ty (VBool b) = (\<not> b)"
| "IsZero ty (VInt i) = (i = 0)"
| "IsZero ty (VUint n) = (n = 0)"
| "IsZero ty (VFloat bits) = (bits = 0 \<or> bits = 2 ^ 63)"
| "IsZero ty (VString s) = (s = [])"
| "IsZero ty (VPtr p) = (p = None)"
| "IsZero ty (VSlice xs) = (xs = None)"
| "IsZero ty (VMap m) = (m = None)"
| "IsZero ty (VIface i) = (i = None)"
| "IsZero (TStruct n fs) (VStruct vs) = IsZeroFields fs vs"
| "IsZero ty (VStruct vs) = False"
| "IsZeroFields [] vs = True"
| "IsZeroFields (sf # rest) [] = True"
| "IsZeroFields (sf # rest) (v # vs) = (IsZeroField sf v \<and> IsZeroFields rest vs)"
| "IsZeroField (Field nm ex an tg ty) v = (nm = ''_'' \<or> IsZero ty v)"

definition durationTy :: gotype where
  "durationTy = TDuration"

definition timeTy :: gotype where
  "timeTy = TStruct ''time.Time''
     [Field ''wall'' False False [] TUint64,
      Field ''ext'' False False [] TInt64,
      Field ''loc'' False False [] (TPtr (TStruct ''time.Location'' []))]"

definition ginCtxTy :: gotype where
  "ginCtxTy = TStruct ''gin.Context'' []"

section \<open>Errors\<close>

datatype numerr = ErrSyntax | ErrRange

text \<open>
  Error values. \<open>ErrorString\<close> is \<^verbatim>\<open>errors.New\<close> (and any foreign error, identified by its
  message); the other constructors are the errors built in \<^verbatim>\<open>binder.go\<close> with
  \<^verbatim>\<open>fmt.Errorf\<close>, \<^verbatim>\<open>strconv\<close>'s \<^verbatim>\<open>*NumError\<close>, and \<^verbatim>\<open>*BindingError\<close> of \<^verbatim>\<open>types.go\<close>.
\<close>

datatype err =
    ErrorString string
  | NumError string string numerr
  | InvalidBoolean string
  | InvalidDuration string err
  | InvalidTimeFormat string err
  | UnsupportedConversion string gotype
  | PathParameterError string err
  | EmbeddedStructError string err
  | FieldDefaultError string err
  | ConvertDefaultError string string err
  | BindingError err

section \<open>The host library functions the coercer calls\<close>

text \<open>
  \<^verbatim>\<open>strconv.ParseFloat\<close>, \<^verbatim>\<open>time.ParseDuration\<close>, \<^verbatim>\<open>time.Parse\<close>, the rounding of
  \<^verbatim>\<open>SetFloat\<close> on a \<^verbatim>\<open>float32\<close>, the UTF-8 decoding of a string-to-rune-slice conversion,
  \<^verbatim>\<open>strconv.Quote\<close> (the \<^verbatim>\<open>%q\<close> verb), \<^verbatim>\<open>Type.String\<close>, the method-set test
  \<^verbatim>\<open>Type.Implements(errTy)\<close>, and the Unicode-aware \<^verbatim>\<open>strings.TrimSpace\<close> and
  \<^verbatim>\<open>strings.ToLower\<close> belong to the Go library; they are parameters of the model.
\<close>

record env =
  ParseFloat :: "string \<Rightarrow> err + nat"
  ParseDuration :: "string \<Rightarrow> err + int"
  TimeParse :: "string \<Rightarrow> string \<Rightarrow> err + goval"
  RoundFloat32 :: "nat \<Rightarrow> nat"
  StringToRunes :: "string \<Rightarrow> int list"
  Quote :: "string \<Rightarrow> string"
  TypeString :: "gotype \<Rightarrow> string"
  ImplementsError :: "gotype \<Rightarrow> bool"
  TrimSpace :: "string \<Rightarrow> string"
  ToLower :: "string \<Rightarrow> string"

subsection \<open>\<^verbatim>\<open>strconv.ParseUint(s, 10, 64)\<close> and \<^verbatim>\<open>strconv.ParseInt(s, 10, 64)\<close>\<close>

definition maxUint64 :: nat where
  "maxUint64 = 2 ^ 64 - 1"

definition digitVal :: "char \<Rightarrow> nat option" where
  "digitVal c = (let n = (of_char c :: nat) in if 48 \<le> n \<and> n \<le> 57 then Some (n - 48) else None)"

text \<open>
  The digit loop of \<^verbatim>\<open>ParseUint\<close> in base 10 with \<^verbatim>\<open>bitSize\<close> 64: a byte that is no
  decimal digit is a syntax error (a letter is a digit value of at least 10, not below
  the base); \<^verbatim>\<open>n >= cutoff\<close> and a wrapped or too large \<^verbatim>\<open>n*10 + d\<close> are range errors.
\<close>

fun parseUintLoop :: "string \<Rightarrow> nat \<Rightarrow> numerr + nat" where
  "parseUintLoop [] n = Inr n"
| "parseUintLoop (c # cs) n =
     (case digitVal c of
        None \<Rightarrow> Inl ErrSyntax
      | Some d \<Rightarrow>
          if n \<ge> maxUint64 div 10 + 1 then Inl ErrRange
          else (let n10 = n * 10; n1 = (n10 + d) mod 2 ^ 64
                in if n1 < n10 \<or> n1 > maxUint64 then Inl ErrRange
                   else parseUintLoop cs n1))"

definition ParseUint :: "string \<Rightarrow> numerr + nat" where
  "ParseUint s = (if s = [] then Inl ErrSyntax else parseUintLoop s 0)"

definition ParseInt :: "string \<Rightarrow> numerr + int" where
  "ParseInt s =
     (if s = [] then Inl ErrSyntax
      else (let neg = (hd s = CHR ''-'');
                s1 = (if hd s = CHR ''+'' \<or> hd s = CHR ''-'' then tl s else s)
            in case ParseUint s1 of
                 Inl ErrSyntax \<Rightarrow> Inl ErrSyntax
               | Inl ErrRange \<Rightarrow> Inl ErrRange
               | Inr un \<Rightarrow>
                   if \<not> neg \<and> un \<ge> 2 ^ 63 then Inl ErrRange
                   else if neg \<and> un > 2 ^ 63 then Inl ErrRange
                   else Inr (if neg then - int un else int un)))"

subsection \<open>\<^verbatim>\<open>reflect.Value.SetInt\<close>, \<^verbatim>\<open>SetUint\<close>, \<^verbatim>\<open>SetFloat\<close>\<close>

text \<open>
  \<^verbatim>\<open>SetInt(x int64)\<close> stores \<^verbatim>\<open>intN(x)\<close>: the conversion keeps the low N bits
  (\<^verbatim>\<open>int\<close> is 64 bits wide here). \<^verbatim>\<open>SetUint\<close> likewise.
\<close>

definition wrapSigned :: "nat \<Rightarrow> int \<Rightarrow> int" where
  "wrapSigned bits x = (x + 2 ^ (bits - 1)) mod 2 ^ bits - 2 ^ (bits - 1)"

definition SetInt :: "kind \<Rightarrow> int \<Rightarrow> int" where
  "SetInt k x =
     (case k of KInt8 \<Rightarrow> wrapSigned 8 x | KInt16 \<Rightarrow> wrapSigned 16 x
              | KInt32 \<Rightarrow> wrapSigned 32 x | _ \<Rightarrow> wrapSigned 64 x)"

definition SetUint :: "kind \<Rightarrow> nat \<Rightarrow> nat" where
  "SetUint k x =
     (case k of KUint8 \<Rightarrow> x mod 2 ^ 8 | KUint16 \<Rightarrow> x mod 2 ^ 16
              | KUint32 \<Rightarrow> x mod 2 ^ 32 | _ \<Rightarrow> x mod 2 ^ 64)"

definition SetFloat :: "env \<Rightarrow> kind \<Rightarrow> nat \<Rightarrow> nat" where
  "SetFloat e k bits = (if k = KFloat32 then RoundFloat32 e bits else bits)"

subsection \<open>\<^verbatim>\<open>parseBool\<close>\<close>

definition parseBool :: "env \<Rightarrow> string \<Rightarrow> err + bool" where
  "parseBool e s =
     (let t = ToLower e (TrimSpace e s)
      in if t = ''true'' \<or> t = ''1'' \<or> t = ''yes'' \<or> t = ''on'' then Inr True
         else if t = ''false'' \<or> t = ''0'' \<or> t = ''no'' \<or> t = ''off'' then Inr False
         else Inl (InvalidBoolean s))"

section \<open>\<^verbatim>\<open>stringToVal\<close>\<close>

text \<open>
  \<^verbatim>\<open>strTy.ConvertibleTo(ty)\<close>: a string converts to a type of kind string, to a byte
  slice, to a rune slice, and to the empty interface (which every type implements).
\<close>

definition ConvertibleTo :: "gotype \<Rightarrow> bool" where
  "ConvertibleTo ty =
     (Kind ty = KString \<or> ty = TSlice TUint8 \<or> ty = TSlice TInt32 \<or> ty = TIface)"

definition Convert :: "env \<Rightarrow> string \<Rightarrow> gotype \<Rightarrow> goval" where
  "Convert e s ty =
     (if ty = TSlice TUint8 then VSlice (Some (map (\<lambda>c. VUint (of_char c)) s))
      else if ty = TSlice TInt32 then VSlice (Some (map VInt (StringToRunes e s)))
      else if ty = TIface then VIface (Some (VString s))
      else VString s)"

definition timeFormats :: "string list" where
  "timeFormats =
     [''2006-01-02T15:04:05Z07:00'',
      ''2006-01-02T15:04:05.999999999Z07:00'',
      ''2006-01-02 15:04:05'',
      ''2006-01-02T15:04:05Z'',
      ''2006-01-02T15:04:05.000Z'',
      ''2006-01-02'',
      ''15:04:05'']"

text \<open>
  The loop over \<^verbatim>\<open>timeFormats\<close>: the state is \<^verbatim>\<open>(parsedTime, parseErr)\<close>, assigned from
  each \<^verbatim>\<open>time.Parse(format, s)\<close> (the zero time and the error on failure); the loop
  breaks as soon as \<^verbatim>\<open>parseErr\<close> is nil.
\<close>

fun parseTimeLoop :: "env \<Rightarrow> string list \<Rightarrow> string \<Rightarrow> goval \<times> err option \<Rightarrow> goval \<times> err option" where
  "parseTimeLoop e [] s st = st"
| "parseTimeLoop e (format # rest) s st =
     (case TimeParse e format s of
        Inr t \<Rightarrow> (t, None)
      | Inl perr \<Rightarrow> parseTimeLoop e rest s (Zero timeTy, Some perr))"

definition stringToVal :: "env \<Rightarrow> string \<Rightarrow> gotype \<Rightarrow> err + goval" where
  "stringToVal e s ty =
     (if s = [] then Inr (Zero ty)
      else if ConvertibleTo ty then Inr (Convert e s ty)
      else if Kind ty = KString then Inr (VString s)
      else if Kind ty \<in> {KInt, KInt8, KInt32, KInt64} then
        (if ty = durationTy then
           (case ParseDuration e s of
              Inl derr \<Rightarrow> Inl (InvalidDuration s derr)
            | Inr d \<Rightarrow> Inr (VInt d))
         else
           (case ParseInt s of
              Inl nerr \<Rightarrow> Inl (NumError ''ParseInt'' s nerr)
            | Inr i \<Rightarrow> Inr (VInt (SetInt (Kind ty) i))))
      else if Kind ty \<in> {KUint, KUint8, KUint16, KUint32, KUint64} then
        (case ParseUint s of
           Inl nerr \<Rightarrow> Inl (NumError ''ParseUint'' s nerr)
         | Inr i \<Rightarrow> Inr (VUint (SetUint (Kind ty) i)))
      else if Kind ty = KBool then
        (case parseBool e s of
           Inl berr \<Rightarrow> Inl berr
         | Inr b \<Rightarrow> Inr (VBool b))
      else if Kind ty \<in> {KFloat32, KFloat64} then
        (case ParseFloat e s of
           Inl ferr \<Rightarrow> Inl ferr
         | Inr f \<Rightarrow> Inr (VFloat (SetFloat e (Kind ty) f)))
      else if ty = timeTy then
        (case parseTimeLoop e timeFormats s (Zero timeTy, None) of
           (parsedTime, Some parseErr) \<Rightarrow> Inl (InvalidTimeFormat s parseErr)
         | (parsedTime, None) \<Rightarrow> Inr parsedTime)
      else Inl (UnsupportedConversion s ty))"

section \<open>Default values\<close>

text \<open>
  A reflect call on a value of the wrong kind panics; a panic is no error value and
  unwinds through every caller, so the functions that can reach one return an outcome.
\<close>

datatype 'a outcome = Returned 'a | Failed err | Panicked string

text \<open>
  \<^verbatim>\<open>setDefaultValue(fieldVal, defaultValue, fieldName)\<close>; the result is the new content of
  \<^verbatim>\<open>fieldVal\<close>. A nil pointer gets a fresh pointee (\<^verbatim>\<open>reflect.New(elemType)\<close>, zero) that
  is set by the recursive call; a non-nil pointer is left alone.
\<close>

fun setDefaultValue :: "env \<Rightarrow> gotype \<Rightarrow> goval \<Rightarrow> string \<Rightarrow> string \<Rightarrow> err + goval" where
  "setDefaultValue e (TPtr elemType) fieldVal defaultValue fieldName =
     (if fieldVal = VPtr None then
        (case setDefaultValue e elemType (Zero elemType) defaultValue fieldName of
           Inl er \<Rightarrow> Inl er
         | Inr newVal \<Rightarrow> Inr (VPtr (Some newVal)))
      else Inr fieldVal)"
| "setDefaultValue e ty fieldVal defaultValue fieldName =
     (case stringToVal e defaultValue ty of
        Inl er \<Rightarrow> Inl (ConvertDefaultError defaultValue fieldName er)
      | Inr convertedVal \<Rightarrow> Inr convertedVal)"

text \<open>
  \<^verbatim>\<open>applyDefaultValues(val)\<close> walks the fields of a struct value in order and mutates them
  in place; \<open>applyFields\<close> is its loop, returning the fields' new contents, and
  \<open>applyField\<close> the loop body for one field. \<^verbatim>\<open>ty.NumField()\<close> panics when \<^verbatim>\<open>val\<close> is
  no struct, with a message that ends in the type's name. A struct value has exactly the fields of its type, so the equation of
  \<open>applyFields\<close> for a value with fewer fields is never reached from Go.
\<close>

fun applyDefaultValues :: "env \<Rightarrow> gotype \<Rightarrow> goval \<Rightarrow> goval outcome"
and applyFields :: "env \<Rightarrow> field list \<Rightarrow> goval list \<Rightarrow> goval list outcome"
and applyField :: "env \<Rightarrow> field \<Rightarrow> goval \<Rightarrow> goval outcome" where
  "applyDefaultValues e (TStruct n fs) (VStruct vs) =
     (case applyFields e fs vs of
        Returned vs' \<Rightarrow> Returned (VStruct vs')
      | Failed er \<Rightarrow> Failed er
      | Panicked m \<Rightarrow> Panicked m)"
| "applyDefaultValues e ty v = Panicked (''reflect: NumField of non-struct type '' @ TypeString e ty)"
| "applyFields e [] vs = Returned vs"
| "applyFields e (sf # rest) [] = Returned []"
| "applyFields e (sf # rest) (fieldVal # vs) =
     (case applyField e sf fieldVal of
        Returned fieldVal' \<Rightarrow>
          (case applyFields e rest vs of
             Returned vs' \<Rightarrow> Returned (fieldVal' # vs')
           | Failed er \<Rightarrow> Failed er
           | Panicked m \<Rightarrow> Panicked m)
      | Failed er \<Rightarrow> Failed er
      | Panicked m \<Rightarrow> Panicked m)"
| "applyField e (Field nm exported anonymous tg ty) fieldVal =
     (if \<not> exported then Returned fieldVal
      else if anonymous then
        (case (ty, fieldVal) of
           (TPtr elemType, VPtr None) \<Rightarrow> Returned fieldVal
         | (TPtr elemType, VPtr (Some pointee)) \<Rightarrow>
             (case applyDefaultValues e elemType pointee of
                Returned pointee' \<Rightarrow> Returned (VPtr (Some pointee'))
              | Failed er \<Rightarrow> Failed (EmbeddedStructError nm er)
              | Panicked m \<Rightarrow> Panicked m)
         | _ \<Rightarrow>
             (case applyDefaultValues e ty fieldVal of
                Returned fieldVal' \<Rightarrow> Returned fieldVal'
              | Failed er \<Rightarrow> Failed (EmbeddedStructError nm er)
              | Panicked m \<Rightarrow> Panicked m))
      else
        (case Lookup (Field nm exported anonymous tg ty) ''default'' of
           None \<Rightarrow> Returned fieldVal
         | Some defaultValue \<Rightarrow>
             if \<not> IsZero ty fieldVal then Returned fieldVal
             else (case setDefaultValue e ty fieldVal defaultValue nm of
                     Inl er \<Rightarrow> Failed (FieldDefaultError nm er)
                   | Inr fieldVal' \<Rightarrow> Returned fieldVal')))"

section \<open>\<^verbatim>\<open>bindingFormValue\<close>\<close>

text \<open>
  What the binder asks of \<^verbatim>\<open>*gin.Context\<close>: \<^verbatim>\<open>Param\<close> (the empty string for an absent
  path parameter) and gin's three binders, which receive the pointer to the whole record
  and either fail or leave it updated. They are gin's code, hence parameters here; each
  gets the record's type and its content.
\<close>

record ctx =
  Param :: "string \<Rightarrow> string"
  BindQuery :: "gotype \<Rightarrow> goval \<Rightarrow> err + goval"
  ShouldBindHeader :: "gotype \<Rightarrow> goval \<Rightarrow> err + goval"
  ShouldBind :: "gotype \<Rightarrow> goval \<Rightarrow> err + goval"

text \<open>The calls made on the context, logged in the order they happen.\<close>

datatype call = CallParam string | CallBindQuery | CallShouldBindHeader | CallShouldBind

text \<open>
  The field loop of \<^verbatim>\<open>bindingFormValue\<close>: \<open>i\<close> is the index of the head of the remaining
  fields, \<open>val\<close> the record under construction, and the two counters are
  \<^verbatim>\<open>headerTagsNum\<close> and \<^verbatim>\<open>formTagsNum\<close>.
\<close>

fun pathLoop ::
  "env \<Rightarrow> ctx \<Rightarrow> field list \<Rightarrow> nat \<Rightarrow> goval list \<Rightarrow> nat \<Rightarrow> nat
     \<Rightarrow> call list \<times> (err + goval list \<times> nat \<times> nat)" where
  "pathLoop e c [] i val headerTagsNum formTagsNum = ([], Inr (val, headerTagsNum, formTagsNum))"
| "pathLoop e c (sf # rest) i val headerTagsNum formTagsNum =
     (if \<not> IsExported sf then pathLoop e c rest (i + 1) val headerTagsNum formTagsNum
      else
        (let headerTagsNum' = (if Lookup sf ''header'' \<noteq> None then headerTagsNum + 1 else headerTagsNum);
             formTagsNum' = (if Lookup sf ''form'' \<noteq> None then formTagsNum + 1 else formTagsNum)
         in case Lookup sf ''path'' of
              None \<Rightarrow> pathLoop e c rest (i + 1) val headerTagsNum' formTagsNum'
            | Some pathKey \<Rightarrow>
                (case stringToVal e (Param c pathKey) (Type sf) of
                   Inl er \<Rightarrow> ([CallParam pathKey], Inl (PathParameterError pathKey er))
                 | Inr sfv \<Rightarrow>
                     (case pathLoop e c rest (i + 1) (val[i := sfv]) headerTagsNum' formTagsNum' of
                        (tr, r) \<Rightarrow> (CallParam pathKey # tr, r)))))"

definition bodyStage :: "ctx \<Rightarrow> gotype \<Rightarrow> call list \<Rightarrow> goval \<Rightarrow> call list \<times> (err + goval)" where
  "bodyStage c ty tr v = (tr @ [CallShouldBind], ShouldBind c ty v)"

definition headerStage ::
  "ctx \<Rightarrow> gotype \<Rightarrow> nat \<Rightarrow> call list \<Rightarrow> goval \<Rightarrow> call list \<times> (err + goval)" where
  "headerStage c ty headerTagsNum tr v =
     (if headerTagsNum > 0 then
        (case ShouldBindHeader c ty v of
           Inl er \<Rightarrow> (tr @ [CallShouldBindHeader], Inl er)
         | Inr v' \<Rightarrow> bodyStage c ty (tr @ [CallShouldBindHeader]) v')
      else bodyStage c ty tr v)"

definition queryStage ::
  "ctx \<Rightarrow> gotype \<Rightarrow> nat \<Rightarrow> nat \<Rightarrow> call list \<Rightarrow> goval \<Rightarrow> call list \<times> (err + goval)" where
  "queryStage c ty formTagsNum headerTagsNum tr v =
     (if formTagsNum > 0 then
        (case BindQuery c ty v of
           Inl er \<Rightarrow> (tr @ [CallBindQuery], Inl er)
         | Inr v' \<Rightarrow> headerStage c ty headerTagsNum (tr @ [CallBindQuery]) v')
      else headerStage c ty headerTagsNum tr v)"

text \<open>
  The part of \<^verbatim>\<open>bindingFormValue\<close> on a struct type up to and including
  \<^verbatim>\<open>ctx.ShouldBind\<close>: the record starts as \<^verbatim>\<open>reflect.New(ty)\<close> (all fields zero).
\<close>

definition bindSources :: "env \<Rightarrow> ctx \<Rightarrow> string \<Rightarrow> field list \<Rightarrow> call list \<times> (err + goval)" where
  "bindSources e c n fs =
     (case pathLoop e c fs 0 (map Zero_field fs) 0 0 of
        (tr, Inl er) \<Rightarrow> (tr, Inl er)
      | (tr, Inr (val, headerTagsNum, formTagsNum)) \<Rightarrow>
          queryStage c (TStruct n fs) formTagsNum headerTagsNum tr (VStruct val))"

text \<open>
  \<^verbatim>\<open>bindingFormValue(ctx, ty)\<close>, returning the log of context calls with the outcome. The
  record that the Go function returns next to a non-nil error is dropped: its only
  caller discards it.
\<close>

fun bindingFormValue :: "env \<Rightarrow> ctx \<Rightarrow> gotype \<Rightarrow> call list \<times> goval outcome" where
  "bindingFormValue e c (TPtr elemType) =
     (case bindingFormValue e c elemType of
        (tr, Returned v) \<Rightarrow> (tr, Returned (VPtr (Some v)))
      | (tr, Failed er) \<Rightarrow> (tr, Failed er)
      | (tr, Panicked m) \<Rightarrow> (tr, Panicked m))"
| "bindingFormValue e c (TStruct n fs) =
     (case bindSources e c n fs of
        (tr, Inl er) \<Rightarrow> (tr, Failed er)
      | (tr, Inr v) \<Rightarrow> (tr, applyDefaultValues e (TStruct n fs) v))"
| "bindingFormValue e c ty = ([], Panicked (''reflect: NumField of non-struct type '' @ TypeString e ty))"

section \<open>\<^verbatim>\<open>FormBindingGinHandlerFunc\<close>\<close>

text \<open>The type of the candidate handler \<^verbatim>\<open>i\<close>: a function type, or anything else.\<close>

datatype handlerTy = NonFunc gotype | Func "gotype list" "gotype list"

text \<open>
  What the returned closure captures of the handler's type \<^verbatim>\<open>ity\<close>: the two counts, the
  parameter types and the result types.
\<close>

record registration =
  inNum :: nat
  outNum :: nat
  ins :: "gotype list"
  outs :: "gotype list"

definition FormBindingGinHandlerFunc :: "env \<Rightarrow> handlerTy \<Rightarrow> err + registration" where
  "FormBindingGinHandlerFunc e i =
     (case i of
        NonFunc t \<Rightarrow> Inl (ErrorString ''input must be a function'')
      | Func params results \<Rightarrow>
          if length params = 0 then Inl (ErrorString ''function must have at least one parameter'')
          else if length params > 2 then Inl (ErrorString ''function can have at most 2 parameters'')
          else if length results = 0 then Inl (ErrorString ''function must have at least one return value'')
          else if length results > 2 then Inl (ErrorString ''function can have at most 2 return values'')
          else if (case params ! 0 of TPtr t \<Rightarrow> t \<noteq> ginCtxTy | _ \<Rightarrow> True)
            then Inl (ErrorString ''first parameter must be *gin.Context'')
          else if length params = 2 \<and> Kind (params ! 1) \<noteq> KStruct \<and>
                  (case params ! 1 of TPtr t \<Rightarrow> Kind t \<noteq> KStruct | _ \<Rightarrow> True)
            then Inl (ErrorString ''second parameter must be a struct or pointer to struct'')
          else if length results = 1 \<and> \<not> ImplementsError e (results ! 0)
            then Inl (ErrorString ''single return value must be error'')
          else if length results = 2 \<and> \<not> ImplementsError e (results ! 1)
            then Inl (ErrorString ''second return value must be error'')
          else Inr \<lparr>inNum = length params, outNum = length results, ins = params, outs = results\<rparr>)"

text \<open>
  An interface value (\<^verbatim>\<open>any\<close>, \<^verbatim>\<open>error\<close>): nil; or a non-nil interface whose dynamic value
  is the nil value of a concrete type (a nil \<^verbatim>\<open>*MyErr\<close>, say); or an interface holding a
  value. Only the first compares equal to \<^verbatim>\<open>nil\<close>.
\<close>

datatype 'a iface = IfaceNil | IfaceTypedNil gotype | IfaceHolds 'a

text \<open>
  \<^verbatim>\<open>out[k].Interface()\<close> for a result of declared type \<open>ty\<close>, the result being given as
  the handler returned it: \<open>IfaceNil\<close> for the nil value of the declared type,
  \<open>IfaceTypedNil\<close> for an interface holding the nil value of a concrete type, \<open>IfaceHolds\<close>
  for any other value. A result declared with an interface type is an interface value,
  handed over as it is. A result declared with a concrete type is boxed into a non-nil
  interface: its nil value comes out as the typed nil, which is not equal to \<^verbatim>\<open>nil\<close>.
\<close>

definition Interface :: "gotype \<Rightarrow> 'a iface \<Rightarrow> 'a iface" where
  "Interface ty v =
     (if Kind ty = KInterface then v
      else (case v of IfaceNil \<Rightarrow> IfaceTypedNil ty | _ \<Rightarrow> v))"

text \<open>
  What a request does, in order: the context calls of the binder, the validator call,
  the call of the business handler, and the call of one of the response handler's two
  operations with its argument. A panic ends the log.
\<close>

datatype 'd event =
    Ctx call
  | ValidateStruct goval
  | HandlerCall "goval option"
  | HandleError "err iface"
  | HandleSuccess "'d iface"
  | Panic string

text \<open>
  \<^verbatim>\<open>funcVal.Call(in)\<close> and what follows it. The business handler is a function of the
  bound record (absent for the one-parameter shape) giving its results, the data and the
  error, as it returned them; with a single return value only the error exists. The
  test on the error is \<^verbatim>\<open>out[k].Interface() != nil\<close>, and \<^verbatim>\<open>HandleError\<close> gets
  \<^verbatim>\<open>err.(error)\<close>, the same interface value.
\<close>

definition invoke ::
  "nat \<Rightarrow> gotype list \<Rightarrow> (goval option \<Rightarrow> 'd iface \<times> err iface) \<Rightarrow> goval option \<Rightarrow> 'd event list" where
  "invoke outN outTys funcVal arg =
     (case funcVal arg of
        (data, herr) \<Rightarrow>
          HandlerCall arg #
          (if outN = 1 then
             (case Interface (outTys ! 0) herr of
                IfaceNil \<Rightarrow> [HandleSuccess IfaceNil]
              | er \<Rightarrow> [HandleError er])
           else
             (case Interface (outTys ! 1) herr of
                IfaceNil \<Rightarrow> [HandleSuccess (Interface (outTys ! 0) data)]
              | er \<Rightarrow> [HandleError er])))"

text \<open>
  The closure returned by \<^verbatim>\<open>FormBindingGinHandlerFunc\<close>, run on one request; the builder's
  validator is \<open>None\<close> when nil, else it returns an \<^verbatim>\<open>error\<close> interface value.
\<close>

definition closure ::
  "env \<Rightarrow> (goval \<Rightarrow> err iface) option \<Rightarrow> registration
     \<Rightarrow> (goval option \<Rightarrow> 'd iface \<times> err iface) \<Rightarrow> ctx \<Rightarrow> 'd event list" where
  "closure e validator reg funcVal c =
     (if inNum reg = 2 then
        (case bindingFormValue e c (ins reg ! 1) of
           (tr, Failed er) \<Rightarrow> map Ctx tr @ [HandleError (IfaceHolds (BindingError er))]
         | (tr, Panicked m) \<Rightarrow> map Ctx tr @ [Panic m]
         | (tr, Returned form) \<Rightarrow>
             (case validator of
                None \<Rightarrow> map Ctx tr @ invoke (outNum reg) (outs reg) funcVal (Some form)
              | Some ValidateStruct_fn \<Rightarrow>
                  (case ValidateStruct_fn form of
                     IfaceNil \<Rightarrow>
                       map Ctx tr @ ValidateStruct form # invoke (outNum reg) (outs reg) funcVal (Some form)
                   | verr \<Rightarrow> map Ctx tr @ [ValidateStruct form, HandleError verr])))
      else invoke (outNum reg) (outs reg) funcVal None)"

section \<open>\<^verbatim>\<open>DefaultResponseHandler.HandleError\<close>\<close>

text \<open>\<^verbatim>\<open>err.Error()\<close>; a \<^verbatim>\<open>*BindingError\<close> reports the message of the error it wraps.\<close>

fun Error :: "env \<Rightarrow> err \<Rightarrow> string" where
  "Error e (ErrorString m) = m"
| "Error e (NumError fn num nerr) =
     ''strconv.'' @ fn @ '': parsing '' @ Quote e num @ '': '' @
       (case nerr of ErrSyntax \<Rightarrow> ''invalid syntax'' | ErrRange \<Rightarrow> ''value out of range'')"
| "Error e (InvalidBoolean s) = ''invalid boolean value: '' @ s"
| "Error e (InvalidDuration s er) = ''invalid duration '' @ Quote e s @ '': '' @ Error e er"
| "Error e (InvalidTimeFormat s er) = ''invalid time format '' @ Quote e s @ '': '' @ Error e er"
| "Error e (UnsupportedConversion s ty) =
     ''unsupported type conversion from '' @ Quote e s @ '' to '' @ TypeString e ty"
| "Error e (PathParameterError k er) =
     ''failed to parse path parameter '' @ Quote e k @ '': '' @ Error e er"
| "Error e (EmbeddedStructError nm er) = ''embedded struct '' @ nm @ '': '' @ Error e er"
| "Error e (FieldDefaultError nm er) = ''field '' @ nm @ '': '' @ Error e er"
| "Error e (ConvertDefaultError d nm er) =
     ''failed to convert default value '' @ Quote e d @ '' for field '' @ nm @ '': '' @ Error e er"
| "Error e (BindingError er) = Error e er"

text \<open>
  The response written by \<^verbatim>\<open>ctx.JSON(statusCode, gin.H{...})\<close>: the status code and the
  JSON object.
\<close>

definition DefaultHandleError :: "env \<Rightarrow> err \<Rightarrow> nat \<times> (string \<rightharpoonup> string)" where
  "DefaultHandleError e er =
     (case
        (case er of
           BindingError inner \<Rightarrow> (400, Error e er)
         | _ \<Rightarrow>
             (if Error e er = ''record not found'' then (404, Error e er)
              else if Error e er = ''unauthorized'' then (401, Error e er)
              else if Error e er = ''forbidden'' then (403, Error e er)
              else (500, Error e er)))
      of (statusCode, message) \<Rightarrow>
        (statusCode, [''status'' \<mapsto> ''error'', ''message'' \<mapsto> message]))"

section \<open>Reading the request log\<close>

definition isResponse :: "'d event \<Rightarrow> bool" where
  "isResponse ev = (case ev of HandleError er \<Rightarrow> True | HandleSuccess d \<Rightarrow> True | _ \<Rightarrow> False)"

definition responses :: "'d event list \<Rightarrow> 'd event list" where
  "responses tr = filter isResponse tr"

definition handlerCalls :: "'d event list \<Rightarrow> 'd event list" where
  "handlerCalls tr = filter (\<lambda>ev. case ev of HandlerCall a \<Rightarrow> True | _ \<Rightarrow> False) tr"

definition validatorCalls :: "'d event list \<Rightarrow> 'd event list" where
  "validatorCalls tr = filter (\<lambda>ev. case ev of ValidateStruct v \<Rightarrow> True | _ \<Rightarrow> False) tr"



section \<open>Vocabulary of the statements\<close>

text \<open>The stage a context call belongs to: Path, Query, Header, Body.\<close>

primrec stageRank :: "call \<Rightarrow> nat" where
  "stageRank (CallParam k) = 0"
| "stageRank CallBindQuery = 1"
| "stageRank CallShouldBindHeader = 2"
| "stageRank CallShouldBind = 3"

text \<open>The path key of a field the Path stage binds; an exported field carrying a tag.\<close>

definition pathKeyOf :: "field \<Rightarrow> string option" where
  "pathKeyOf sf = (if IsExported sf then Lookup sf ''path'' else None)"

definition hasTag :: "string \<Rightarrow> field \<Rightarrow> bool" where
  "hasTag key sf = (IsExported sf \<and> Lookup sf key \<noteq> None)"

text \<open>The path keys of a record's fields, in the order of the fields.\<close>

definition pathKeys :: "field list \<Rightarrow> string list" where
  "pathKeys fs = List.map_filter pathKeyOf fs"

text \<open>Field \<open>i\<close> of a record, and a binder that leaves field \<open>i\<close> of records of a type alone.\<close>

definition fieldAt :: "nat \<Rightarrow> goval \<Rightarrow> goval option" where
  "fieldAt i v = (case v of VStruct vs \<Rightarrow> (if i < length vs then Some (vs ! i) else None) | _ \<Rightarrow> None)"

definition keepsField :: "gotype \<Rightarrow> nat \<Rightarrow> (gotype \<Rightarrow> goval \<Rightarrow> err + goval) \<Rightarrow> bool" where
  "keepsField ty i binder = (\<forall>v v'. binder ty v = Inr v' \<longrightarrow> fieldAt i v' = fieldAt i v)"

text \<open>
  The decode as the specification words it, to be compared with \<open>bindSources\<close>. The Path
  stage comes first: it takes the fields in their order and looks up the key of each
  one carrying a \<^verbatim>\<open>path\<close> tag; an absent or empty parameter leaves the zero value, any
  other is coerced, and the first parameter that does not coerce ends the decode. Every
  other field starts with the zero value.
\<close>

definition specCoerce :: "env \<Rightarrow> string \<Rightarrow> gotype \<Rightarrow> err + goval" where
  "specCoerce e s ty = (if s = [] then Inr (Zero ty) else stringToVal e s ty)"

fun specPathStage :: "env \<Rightarrow> ctx \<Rightarrow> field list \<Rightarrow> call list \<times> (err + goval list)" where
  "specPathStage e c [] = ([], Inr [])"
| "specPathStage e c (sf # rest) =
     (case pathKeyOf sf of
        None \<Rightarrow>
          (case specPathStage e c rest of
             (tr, Inl er) \<Rightarrow> (tr, Inl er)
           | (tr, Inr vs) \<Rightarrow> (tr, Inr (Zero (Type sf) # vs)))
      | Some key \<Rightarrow>
          (case specCoerce e (Param c key) (Type sf) of
             Inl er \<Rightarrow> ([CallParam key], Inl (PathParameterError key er))
           | Inr x \<Rightarrow>
               (case specPathStage e c rest of
                  (tr, Inl er) \<Rightarrow> (CallParam key # tr, Inl er)
                | (tr, Inr vs) \<Rightarrow> (CallParam key # tr, Inr (x # vs)))))"

text \<open>
  The stages after it, in their fixed order: Query only if a field carries a \<^verbatim>\<open>form\<close>
  tag, Header only if a field carries a \<^verbatim>\<open>header\<close> tag, Body always. Each stage is named
  by the context call that performs it.
\<close>

definition specLaterStages :: "field list \<Rightarrow> call list" where
  "specLaterStages fs =
     (if list_ex (hasTag ''form'') fs then [CallBindQuery] else [])
     @ (if list_ex (hasTag ''header'') fs then [CallShouldBindHeader] else [])
     @ [CallShouldBind]"

primrec specBinder :: "ctx \<Rightarrow> call \<Rightarrow> gotype \<Rightarrow> goval \<Rightarrow> err + goval" where
  "specBinder c (CallParam key) = (\<lambda>ty v. Inr v)"
| "specBinder c CallBindQuery = BindQuery c"
| "specBinder c CallShouldBindHeader = ShouldBindHeader c"
| "specBinder c CallShouldBind = ShouldBind c"

text \<open>
  Running stages one after the other on the record, each on the record the previous one
  left; the first failure ends the run and no later stage executes.
\<close>

fun specRunStages :: "ctx \<Rightarrow> gotype \<Rightarrow> call list \<Rightarrow> goval \<Rightarrow> call list \<times> (err + goval)" where
  "specRunStages c ty [] v = ([], Inr v)"
| "specRunStages c ty (st # rest) v =
     (case specBinder c st ty v of
        Inl er \<Rightarrow> ([st], Inl er)
      | Inr v' \<Rightarrow> (case specRunStages c ty rest v' of (tr, r) \<Rightarrow> (st # tr, r)))"

definition specDecode :: "env \<Rightarrow> ctx \<Rightarrow> string \<Rightarrow> field list \<Rightarrow> call list \<times> (err + goval)" where
  "specDecode e c n fs =
     (case specPathStage e c fs of
        (tr, Inl er) \<Rightarrow> (tr, Inl er)
      | (tr, Inr vs) \<Rightarrow>
          (case specRunStages c (TStruct n fs) (specLaterStages fs) (VStruct vs) of
             (tr', r) \<Rightarrow> (tr @ tr', r)))"

text \<open>
  Field \<open>i\<close> is left unchanged by each of the given stages that runs, on the record that
  stage receives in this run.
\<close>

fun keptThrough :: "ctx \<Rightarrow> gotype \<Rightarrow> call list \<Rightarrow> nat \<Rightarrow> goval \<Rightarrow> bool" where
  "keptThrough c ty [] i v = True"
| "keptThrough c ty (st # rest) i v =
     (case specBinder c st ty v of
        Inl er \<Rightarrow> True
      | Inr v' \<Rightarrow> fieldAt i v' = fieldAt i v \<and> keptThrough c ty rest i v')"

text \<open>
  The types that \<^verbatim>\<open>stringToVal\<close> sends to its last branch: not convertible from a string,
  of none of the kinds its switch lists, and not \<^verbatim>\<open>time.Time\<close>.
\<close>

definition unsupportedType :: "gotype \<Rightarrow> bool" where
  "unsupportedType ty =
     (\<not> ConvertibleTo ty
      \<and> Kind ty \<notin> {KString, KInt, KInt8, KInt32, KInt64, KUint, KUint8, KUint16, KUint32, KUint64,
                    KBool, KFloat32, KFloat64}
      \<and> ty \<noteq> timeTy)"


section \<open>Sample instances\<close>

text \<open>
  \<^verbatim>\<open>strings.TrimSpace\<close> and \<^verbatim>\<open>strings.ToLower\<close> as they act on ASCII text.
\<close>

definition asciiSpace :: "char \<Rightarrow> bool" where
  "asciiSpace c = ((of_char c :: nat) \<in> {9, 10, 11, 12, 13, 32})"

definition asciiTrimSpace :: "string \<Rightarrow> string" where
  "asciiTrimSpace s = rev (dropWhile asciiSpace (rev (dropWhile asciiSpace s)))"

definition asciiToLower :: "string \<Rightarrow> string" where
  "asciiToLower s =
     map (\<lambda>c. let n = (of_char c :: nat) in if 65 \<le> n \<and> n \<le> 90 then char_of (n + 32) else c) s"

text \<open>
  A host library that parses one float (\<^verbatim>\<open>1.5\<close>, bit pattern \<^verbatim>\<open>0x3FF8000000000000\<close>), one
  duration and one date, quotes without escapes, trims and lowers ASCII text, and in
  which \<^verbatim>\<open>error\<close> itself and the pointer type \<^verbatim>\<open>*MyErr\<close> implement \<^verbatim>\<open>error\<close>.
\<close>

definition myErrPtrTy :: gotype where
  "myErrPtrTy = TPtr (TStruct ''MyErr'' [])"

definition sampleEnv :: env where
  "sampleEnv =
     \<lparr> ParseFloat = (\<lambda>s. if s = ''1.5'' then Inr 4609434218613702656
                          else Inl (ErrorString ''invalid syntax'')),
       ParseDuration = (\<lambda>s. if s = ''30s'' then Inr 30000000000
                             else Inl (ErrorString ''invalid duration'')),
       TimeParse = (\<lambda>format s.
          if format = ''2006-01-02'' \<and> s = ''2023-01-01''
          then Inr (VStruct [VUint 0, VInt 63808128000, VPtr None])
          else Inl (ErrorString ''cannot parse'')),
       RoundFloat32 = (\<lambda>bits. bits),
       StringToRunes = (\<lambda>s. map of_char s),
       Quote = (\<lambda>s. CHR 0x22 # s @ [CHR 0x22]),
       TypeString = (\<lambda>t. ''T''),
       ImplementsError = (\<lambda>t. t = TError \<or> t = myErrPtrTy),
       TrimSpace = asciiTrimSpace,
       ToLower = asciiToLower \<rparr>"

text \<open>
  Requests: path parameter \<^verbatim>\<open>id=123\<close>; the binders of \<open>emptyBodyCtx\<close> find nothing to
  bind (body \<^verbatim>\<open>{}\<close>), the body binder of \<open>malformedBodyCtx\<close> rejects the body.
\<close>

definition emptyBodyCtx :: ctx where
  "emptyBodyCtx =
     \<lparr> Param = (\<lambda>k. if k = ''id'' then ''123'' else []),
       BindQuery = (\<lambda>ty v. Inr v),
       ShouldBindHeader = (\<lambda>ty v. Inr v),
       ShouldBind = (\<lambda>ty v. Inr v) \<rparr>"

definition malformedBodyCtx :: ctx where
  "malformedBodyCtx =
     \<lparr> Param = (\<lambda>k. if k = ''id'' then ''123'' else []),
       BindQuery = (\<lambda>ty v. Inr v),
       ShouldBindHeader = (\<lambda>ty v. Inr v),
       ShouldBind = (\<lambda>ty v. Inl (ErrorString ''invalid character'')) \<rparr>"

text \<open>The handler \<^verbatim>\<open>func(c *gin.Context, req struct{ Name string `json:"name"` }) (any, error)\<close>.\<close>

definition nameRecordTy :: gotype where
  "nameRecordTy = TStruct [] [Field ''Name'' True False [(''json'', ''name'')] TString]"



text \<open>
  A binder that honours explicit tags only: it stores, in every exported field tagged
  \<^verbatim>\<open>tag:"k"\<close>, the value the source holds under \<open>k\<close>, and leaves every other field as it
  is. (gin's binders, made simple: the source holds values of the fields' types.)
\<close>

definition setTagged :: "string \<Rightarrow> (string \<rightharpoonup> goval) \<Rightarrow> gotype \<Rightarrow> goval \<Rightarrow> err + goval" where
  "setTagged tag src ty v =
     (case (ty, v) of
        (TStruct n fs, VStruct vs) \<Rightarrow>
          Inr (VStruct (map2 (\<lambda>sf x. case (if IsExported sf then Lookup sf tag else None) of
                                        None \<Rightarrow> x
                                      | Some k \<Rightarrow> (case src k of None \<Rightarrow> x | Some y \<Rightarrow> y)) fs vs))
      | _ \<Rightarrow> Inl (ErrorString ''not a struct''))"

text \<open>
  The record and the request of \<^verbatim>\<open>TestMixedBinding\<close>:
  \<^verbatim>\<open>PUT /user/123?page=1\<close> with an \<^verbatim>\<open>Authorization\<close> header and a JSON body.
\<close>

definition mixedFields :: "field list" where
  "mixedFields =
     [Field ''UserID'' True False [(''path'', ''user_id'')] TInt,
      Field ''Page'' True False [(''form'', ''page'')] TInt,
      Field ''AuthToken'' True False [(''header'', ''Authorization'')] TString,
      Field ''Name'' True False [(''json'', ''name'')] TString,
      Field ''Email'' True False [(''json'', ''email'')] TString]"

definition mixedCtx :: ctx where
  "mixedCtx =
     \<lparr> Param = (\<lambda>k. if k = ''user_id'' then ''123'' else []),
       BindQuery = setTagged ''form'' [''page'' \<mapsto> VInt 1],
       ShouldBindHeader = setTagged ''header'' [''Authorization'' \<mapsto> VString ''Bearer token123''],
       ShouldBind = setTagged ''json''
          [''name'' \<mapsto> VString ''John'', ''email'' \<mapsto> VString ''john@example.com''] \<rparr>"

text \<open>
  \<^verbatim>\<open>struct{ ID int `path:"id"`; Name string `json:"name"` }\<close> with path \<^verbatim>\<open>id=123\<close> and body
  \<^verbatim>\<open>{"name":"Ann"}\<close>.
\<close>

definition idNameFields :: "field list" where
  "idNameFields =
     [Field ''ID'' True False [(''path'', ''id'')] TInt,
      Field ''Name'' True False [(''json'', ''name'')] TString]"

definition annCtx :: ctx where
  "annCtx =
     \<lparr> Param = (\<lambda>k. if k = ''id'' then ''123'' else []),
       BindQuery = (\<lambda>ty v. Inr v),
       ShouldBindHeader = (\<lambda>ty v. Inr v),
       ShouldBind = setTagged ''json'' [''name'' \<mapsto> VString ''Ann''] \<rparr>"

text \<open>
  \<^verbatim>\<open>struct{ ID int `path:"id" json:"id"` }\<close> with path \<^verbatim>\<open>id=123\<close> and body \<^verbatim>\<open>{"id":7}\<close>.
\<close>

definition idFields :: "field list" where
  "idFields = [Field ''ID'' True False [(''path'', ''id''), (''json'', ''id'')] TInt]"

definition overwriteCtx :: ctx where
  "overwriteCtx =
     \<lparr> Param = (\<lambda>k. if k = ''id'' then ''123'' else []),
       BindQuery = (\<lambda>ty v. Inr v),
       ShouldBindHeader = (\<lambda>ty v. Inr v),
       ShouldBind = setTagged ''json'' [''id'' \<mapsto> VInt 7] \<rparr>"

text \<open>
  \<^verbatim>\<open>struct{ Tags map[string]string `path:"id"` }\<close> and \<^verbatim>\<open>struct{ ID *int `path:"id"` }\<close>.
\<close>

definition tagsFields :: "field list" where
  "tagsFields = [Field ''Tags'' True False [(''path'', ''id'')] (TMap TString TString)]"

definition optionalIdFields :: "field list" where
  "optionalIdFields = [Field ''ID'' True False [(''path'', ''id'')] (TPtr TInt)]"

text \<open>
  The \<^verbatim>\<open>Pagination\<close> record of the README, a \<^verbatim>\<open>Base\<close> record with a path-bound field, and
  a record with defaults on a string, an integer and a pointer field.
\<close>

definition paginationFields :: "field list" where
  "paginationFields =
     [Field ''Page'' True False [(''form'', ''page''), (''default'', ''1'')] TInt,
      Field ''PageSize'' True False [(''form'', ''page_size''), (''default'', ''10'')] TInt]"

definition baseFields :: "field list" where
  "baseFields = [Field ''ID'' True False [(''path'', ''id'')] TInt]"

definition defaultsFields :: "field list" where
  "defaultsFields =
     [Field ''Name'' True False [(''json'', ''name''), (''default'', ''John'')] TString,
      Field ''Age'' True False [(''json'', ''age''), (''default'', ''25'')] TInt,
      Field ''IsActive'' True False [(''json'', ''is_active''), (''default'', ''true'')] (TPtr TBool),
      Field ''Email'' True False [(''json'', ''email'')] TString]"

text \<open>
  \<^verbatim>\<open>struct{ Rate float64 `default:"1.5"` }\<close>, and \<^verbatim>\<open>struct{ Level }\<close> with
  \<^verbatim>\<open>type Level int\<close>: an exported embedded field that is no record.
\<close>

definition rateFields :: "field list" where
  "rateFields = [Field ''Rate'' True False [(''default'', ''1.5'')] TFloat64]"


section \<open>Properties\<close>

lemmas eval_defs = bindSources_def queryStage_def headerStage_def bodyStage_def Lookup_def
  stringToVal_def ConvertibleTo_def Convert_def durationTy_def ParseInt_def ParseUint_def
  digitVal_def maxUint64_def SetInt_def SetUint_def wrapSigned_def timeTy_def
  parseBool_def asciiToLower_def asciiTrimSpace_def asciiSpace_def setTagged_def

subsection \<open>The default response handler\<close>

text \<open>
  Claim C10. \<^verbatim>\<open>DefaultResponseHandler.HandleError\<close> answers 400 for a \<^verbatim>\<open>*BindingError\<close>;
  for any other error 404 when its message is exactly "record not found", 401 for
  "unauthorized", 403 for "forbidden" and 500 otherwise; the JSON body always has status
  "error" and the error's message.
\<close>

theorem C10_default_handle_error:
  "fst (DefaultHandleError e er) =
     (if (\<exists>inner. er = BindingError inner) then 400
      else if Error e er = ''record not found'' then 404
      else if Error e er = ''unauthorized'' then 401
      else if Error e er = ''forbidden'' then 403 else 500)
   \<and> snd (DefaultHandleError e er) = [''status'' \<mapsto> ''error'', ''message'' \<mapsto> Error e er]"
  by (cases er) (simp_all add: DefaultHandleError_def)

theorem C10_default_handle_error_witness:
  "DefaultHandleError sampleEnv (BindingError (ErrorString ''record not found'')) =
     (400, [''status'' \<mapsto> ''error'', ''message'' \<mapsto> ''record not found''])
   \<and> fst (DefaultHandleError sampleEnv (ErrorString ''record not found'')) = 404
   \<and> fst (DefaultHandleError sampleEnv (ErrorString ''unauthorized'')) = 401
   \<and> fst (DefaultHandleError sampleEnv (ErrorString ''forbidden'')) = 403
   \<and> fst (DefaultHandleError sampleEnv (ErrorString ''boom'')) = 500"
  using C10_default_handle_error [of sampleEnv "BindingError (ErrorString ''record not found'')"]
        C10_default_handle_error [of sampleEnv "ErrorString ''record not found''"]
        C10_default_handle_error [of sampleEnv "ErrorString ''unauthorized''"]
        C10_default_handle_error [of sampleEnv "ErrorString ''forbidden''"]
        C10_default_handle_error [of sampleEnv "ErrorString ''boom''"]
  by (simp add: prod_eq_iff)

subsection \<open>Timestamps\<close>

lemma parseTimeLoop_find:
  "parseTimeLoop e fs s st =
     (case find (\<lambda>f. \<not> isl (TimeParse e f s)) fs of
        Some f \<Rightarrow> (projr (TimeParse e f s), None)
      | None \<Rightarrow> if fs = [] then st else (Zero timeTy, Some (projl (TimeParse e (last fs) s))))"
proof (induction fs arbitrary: st)
  case Nil
  show ?case by simp
next
  case (Cons f fs)
  show ?case
  proof (cases "TimeParse e f s")
    case (Inl perr)
    then show ?thesis using Cons.IH [of "(Zero timeTy, Some perr)"]
      by (cases "fs = []") (simp_all split: option.splits)
  next
    case (Inr t)
    then show ?thesis by simp
  qed
qed

lemma timeTy_kind:
  "\<not> ConvertibleTo timeTy" "Kind timeTy = KStruct"
  by (simp_all add: ConvertibleTo_def timeTy_def)

text \<open>
  Claim C9. For a \<^verbatim>\<open>time.Time\<close> target and a non-empty string, \<^verbatim>\<open>stringToVal\<close> returns
  the value of the first format, in the order RFC3339, RFC3339Nano, date and time
  separated by a space, the two \<^verbatim>\<open>Z\<close>-suffixed layouts, date only, time only, that
  \<^verbatim>\<open>time.Parse\<close> accepts; when none does, it returns the invalid-time-format error
  (wrapping the error of the last format tried).
\<close>

theorem C9_first_parsing_format_wins:
  assumes "s \<noteq> []"
  shows "stringToVal e s timeTy =
     (case find (\<lambda>format. \<not> isl (TimeParse e format s))
             [''2006-01-02T15:04:05Z07:00'',
              ''2006-01-02T15:04:05.999999999Z07:00'',
              ''2006-01-02 15:04:05'',
              ''2006-01-02T15:04:05Z'',
              ''2006-01-02T15:04:05.000Z'',
              ''2006-01-02'',
              ''15:04:05''] of
        Some format \<Rightarrow> Inr (projr (TimeParse e format s))
      | None \<Rightarrow> Inl (InvalidTimeFormat s (projl (TimeParse e ''15:04:05'' s))))"
proof -
  have "stringToVal e s timeTy =
      (case parseTimeLoop e timeFormats s (Zero timeTy, None) of
           (parsedTime, Some parseErr) \<Rightarrow> Inl (InvalidTimeFormat s parseErr)
         | (parsedTime, None) \<Rightarrow> Inr parsedTime)"
    using assms by (simp add: stringToVal_def timeTy_kind)
  also have "\<dots> = (case find (\<lambda>format. \<not> isl (TimeParse e format s)) timeFormats of
        Some format \<Rightarrow> Inr (projr (TimeParse e format s))
      | None \<Rightarrow> Inl (InvalidTimeFormat s (projl (TimeParse e (last timeFormats) s))))"
    unfolding parseTimeLoop_find [of e timeFormats s]
    by (simp add: timeFormats_def split: option.splits)
  finally show ?thesis by (simp add: timeFormats_def)
qed

theorem C9_first_parsing_format_wins_witness:
  "''2023-01-01'' \<noteq> []
   \<and> stringToVal sampleEnv ''2023-01-01'' timeTy = Inr (VStruct [VUint 0, VInt 63808128000, VPtr None])
   \<and> stringToVal sampleEnv ''yesterday'' timeTy =
       Inl (InvalidTimeFormat ''yesterday'' (ErrorString ''cannot parse''))"
  using C9_first_parsing_format_wins [of "''2023-01-01''" sampleEnv]
        C9_first_parsing_format_wins [of "''yesterday''" sampleEnv]
  by (simp add: sampleEnv_def)

subsection \<open>The request closure\<close>

lemma log_skips_ctx:
  "responses (map Ctx tr @ evs) = responses evs"
  "handlerCalls (map Ctx tr @ evs) = handlerCalls evs"
  "validatorCalls (map Ctx tr @ evs) = validatorCalls evs"
  by (induction tr) (simp_all add: responses_def handlerCalls_def validatorCalls_def isResponse_def)









subsection \<open>The field loop and the stages\<close>

lemma pathLoop_Cons:
  obtains
    (skip) h1 f1 where "pathKeyOf sf = None"
      "pathLoop e c (sf # rest) i val h f = pathLoop e c rest (Suc i) val h1 f1"
      "h1 = h + (if hasTag ''header'' sf then 1 else 0)"
      "f1 = f + (if hasTag ''form'' sf then 1 else 0)"
  | (fail) k er where "pathKeyOf sf = Some k"
      "stringToVal e (Param c k) (Type sf) = Inl er"
      "pathLoop e c (sf # rest) i val h f = ([CallParam k], Inl (PathParameterError k er))"
  | (bound) k sfv h1 f1 where "pathKeyOf sf = Some k"
      "stringToVal e (Param c k) (Type sf) = Inr sfv"
      "pathLoop e c (sf # rest) i val h f =
         (CallParam k # fst (pathLoop e c rest (Suc i) (val[i := sfv]) h1 f1),
          snd (pathLoop e c rest (Suc i) (val[i := sfv]) h1 f1))"
      "h1 = h + (if hasTag ''header'' sf then 1 else 0)"
      "f1 = f + (if hasTag ''form'' sf then 1 else 0)"
proof (cases "pathKeyOf sf")
  case None
  have "pathLoop e c (sf # rest) i val h f =
      pathLoop e c rest (Suc i) val (h + (if hasTag ''header'' sf then 1 else 0))
        (f + (if hasTag ''form'' sf then 1 else 0))"
  proof (cases "IsExported sf")
    case True
    with None have "Lookup sf ''path'' = None" by (simp add: pathKeyOf_def)
    with True show ?thesis by (simp add: hasTag_def Let_def)
  next
    case False
    then show ?thesis by (simp add: hasTag_def)
  qed
  with None show ?thesis by (rule skip) simp_all
next
  case (Some k)
  then have ex: "IsExported sf" and lk: "Lookup sf ''path'' = Some k"
    by (simp_all add: pathKeyOf_def split: if_splits)
  show ?thesis
  proof (cases "stringToVal e (Param c k) (Type sf)")
    case (Inl er)
    with ex lk have "pathLoop e c (sf # rest) i val h f = ([CallParam k], Inl (PathParameterError k er))"
      by (simp add: Let_def)
    with Some Inl show ?thesis by (rule fail)
  next
    case (Inr sfv)
    with ex lk have "pathLoop e c (sf # rest) i val h f =
         (CallParam k # fst (pathLoop e c rest (Suc i) (val[i := sfv])
              (h + (if hasTag ''header'' sf then 1 else 0)) (f + (if hasTag ''form'' sf then 1 else 0))),
          snd (pathLoop e c rest (Suc i) (val[i := sfv])
              (h + (if hasTag ''header'' sf then 1 else 0)) (f + (if hasTag ''form'' sf then 1 else 0))))"
      by (simp add: Let_def hasTag_def split: prod.splits)
    with Some Inr show ?thesis by (rule bound) simp_all
  qed
qed

declare pathLoop.simps(2) [simp del]

lemma pathLoop_rank:
  "\<forall>x \<in> set (fst (pathLoop e c fs i val h f)). stageRank x = 0"
proof (induction fs arbitrary: i val h f)
  case Nil
  show ?case by simp
next
  case (Cons sf rest)
  show ?case
    by (cases rule: pathLoop_Cons [of sf e c rest i val h f]) (simp_all add: Cons.IH)
qed

lemma pathLoop_counters:
  "snd (pathLoop e c fs i val h f) = Inr (val', h', f') \<Longrightarrow>
     h' = h + length (filter (hasTag ''header'') fs)
   \<and> f' = f + length (filter (hasTag ''form'') fs)"
proof (induction fs arbitrary: i val h f)
  case Nil
  then show ?case by simp
next
  case (Cons sf rest)
  show ?case
  proof (cases rule: pathLoop_Cons [of sf e c rest i val h f])
    case (skip h1 f1)
    with Cons.prems Cons.IH [of "Suc i" val h1 f1] show ?thesis by simp
  next
    case (fail k er)
    with Cons.prems show ?thesis by simp
  next
    case (bound k sfv h1 f1)
    with Cons.prems Cons.IH [of "Suc i" "val[i := sfv]" h1 f1] show ?thesis by simp
  qed
qed

lemma pathLoop_failure:
  "snd (pathLoop e c fs i val h f) = Inl er \<Longrightarrow>
     (\<exists>k er'. er = PathParameterError k er') \<and> fst (pathLoop e c fs i val h f) \<noteq> []"
proof (induction fs arbitrary: i val h f)
  case Nil
  then show ?case by simp
next
  case (Cons sf rest)
  show ?case
  proof (cases rule: pathLoop_Cons [of sf e c rest i val h f])
    case (skip h1 f1)
    with Cons.prems Cons.IH [of "Suc i" val h1 f1] show ?thesis by simp
  next
    case (fail k er0)
    with Cons.prems show ?thesis by auto
  next
    case (bound k sfv h1 f1)
    with Cons.prems Cons.IH [of "Suc i" "val[i := sfv]" h1 f1] show ?thesis by simp
  qed
qed

lemma pathLoop_fields:
  "snd (pathLoop e c fs i val h f) = Inr (val', h', f') \<Longrightarrow>
     length val' = length val
   \<and> (\<forall>j. j < i \<longrightarrow> val' ! j = val ! j)
   \<and> (\<forall>k. k < length fs \<and> i + k < length val \<and> pathKeyOf (fs ! k) = None \<longrightarrow>
          val' ! (i + k) = val ! (i + k))
   \<and> (\<forall>k key. k < length fs \<and> i + k < length val \<and> pathKeyOf (fs ! k) = Some key \<longrightarrow>
          stringToVal e (Param c key) (Type (fs ! k)) = Inr (val' ! (i + k)))"
proof (induction fs arbitrary: i val h f)
  case Nil
  then show ?case by simp
next
  case (Cons sf rest)
  show ?case
  proof (cases rule: pathLoop_Cons [of sf e c rest i val h f])
    case (skip h1 f1)
    with Cons.prems have rec: "snd (pathLoop e c rest (Suc i) val h1 f1) = Inr (val', h', f')"
      by simp
    note IH = Cons.IH [OF rec]
    have a: "val' ! (i + k) = val ! (i + k)"
      if "k < length (sf # rest)" "i + k < length val" "pathKeyOf ((sf # rest) ! k) = None" for k
      using that IH by (cases k) auto
    have b: "stringToVal e (Param c key) (Type ((sf # rest) ! k)) = Inr (val' ! (i + k))"
      if "k < length (sf # rest)" "i + k < length val" "pathKeyOf ((sf # rest) ! k) = Some key" for k key
      using that IH skip(1) by (cases k) auto
    from IH a b show ?thesis by simp
  next
    case (fail k er)
    with Cons.prems show ?thesis by simp
  next
    case (bound key0 sfv h1 f1)
    with Cons.prems have rec:
      "snd (pathLoop e c rest (Suc i) (val[i := sfv]) h1 f1) = Inr (val', h', f')"
      by simp
    note IH = Cons.IH [OF rec]
    have head: "val' ! i = sfv" if "i < length val"
    proof -
      from IH have "val' ! i = (val[i := sfv]) ! i" by simp
      with that show ?thesis by simp
    qed
    have a: "val' ! (i + k) = val ! (i + k)"
      if "k < length (sf # rest)" "i + k < length val" "pathKeyOf ((sf # rest) ! k) = None" for k
      using that IH bound(1) by (cases k) auto
    have b: "stringToVal e (Param c key) (Type ((sf # rest) ! k)) = Inr (val' ! (i + k))"
      if "k < length (sf # rest)" "i + k < length val" "pathKeyOf ((sf # rest) ! k) = Some key" for k key
      using that IH bound(1,2) head by (cases k) auto
    from IH a b show ?thesis by simp
  qed
qed


lemma bindSources_log:
  "sorted (map stageRank (fst (bindSources e c n fs)))
   \<and> distinct (filter (\<lambda>x. 0 < stageRank x) (fst (bindSources e c n fs)))
   \<and> (CallBindQuery \<in> set (fst (bindSources e c n fs)) \<longrightarrow> (\<exists>sf\<in>set fs. hasTag ''form'' sf))
   \<and> (CallShouldBindHeader \<in> set (fst (bindSources e c n fs)) \<longrightarrow> (\<exists>sf\<in>set fs. hasTag ''header'' sf))
   \<and> (CallShouldBind \<notin> set (fst (bindSources e c n fs)) \<longrightarrow> (\<exists>er. snd (bindSources e c n fs) = Inl er))"
proof -
  obtain ptr pr where pl: "pathLoop e c fs 0 (map Zero_field fs) 0 0 = (ptr, pr)"
    by (cases "pathLoop e c fs 0 (map Zero_field fs) 0 0")
  have r0: "\<forall>x\<in>set ptr. stageRank x = 0"
    using pathLoop_rank [of e c fs 0 "map Zero_field fs" 0 0] pl by simp
  then have p1: "sorted (map stageRank ptr)"
    by (induction ptr) auto
  from r0 have p2: "filter (\<lambda>x. 0 < stageRank x) ptr = []"
    by (simp add: filter_empty_conv)
  from r0 have p3: "CallBindQuery \<notin> set ptr" "CallShouldBindHeader \<notin> set ptr" "CallShouldBind \<notin> set ptr"
    by auto
  show ?thesis
  proof (cases pr)
    case (Inl er)
    with pl p1 p2 p3 show ?thesis by (simp add: bindSources_def)
  next
    case (Inr st)
    obtain val hn fn where st: "st = (val, hn, fn)" by (cases st)
    with Inr pl have "snd (pathLoop e c fs 0 (map Zero_field fs) 0 0) = Inr (val, hn, fn)" by simp
    from pathLoop_counters [OF this]
    have hn: "0 < hn \<longrightarrow> (\<exists>sf\<in>set fs. hasTag ''header'' sf)"
      and fn: "0 < fn \<longrightarrow> (\<exists>sf\<in>set fs. hasTag ''form'' sf)"
      by (auto simp: filter_empty_conv)
    have bs: "bindSources e c n fs = queryStage c (TStruct n fs) fn hn ptr (VStruct val)"
      using pl Inr st by (simp add: bindSources_def)
    show ?thesis
      unfolding bs using p1 p2 p3 r0 hn fn
      by (auto simp: queryStage_def headerStage_def bodyStage_def sorted_append
          split: sum.splits)
  qed
qed

lemma bindingFormValue_ptr:
  "fst (bindingFormValue e c (TPtr t)) = fst (bindingFormValue e c t)"
  "(snd (bindingFormValue e c (TPtr t)) = Failed er) = (snd (bindingFormValue e c t) = Failed er)"
  "(snd (bindingFormValue e c (TPtr t)) = Returned v) =
     (\<exists>v0. snd (bindingFormValue e c t) = Returned v0 \<and> v = VPtr (Some v0))"
  by (auto split: prod.splits outcome.splits)

lemma bindingFormValue_struct:
  "fst (bindingFormValue e c (TStruct n fs)) = fst (bindSources e c n fs)"
  "snd (bindSources e c n fs) = Inl er \<Longrightarrow> snd (bindingFormValue e c (TStruct n fs)) = Failed er"
  "snd (bindingFormValue e c (TStruct n fs)) = Returned v \<Longrightarrow> \<exists>v0. snd (bindSources e c n fs) = Inr v0"
  by (auto split: prod.splits sum.splits)

lemma specCoerce_stringToVal [simp]:
  "specCoerce e s ty = stringToVal e s ty"
  by (simp add: specCoerce_def stringToVal_def)

lemma pathLoop_specPathStage:
  "length pre = i \<Longrightarrow>
   pathLoop e c fs i (pre @ map Zero_field fs @ post) h f =
     (case specPathStage e c fs of
        (tr, Inl er) \<Rightarrow> (tr, Inl er)
      | (tr, Inr xs) \<Rightarrow>
          (tr, Inr (pre @ xs @ post,
                    h + length (filter (hasTag ''header'') fs),
                    f + length (filter (hasTag ''form'') fs))))"
proof (induction fs arbitrary: pre i h f)
  case Nil
  show ?case by simp
next
  case (Cons sf rest)
  let ?val = "pre @ map Zero_field (sf # rest) @ post"
  have zf: "Zero_field sf = Zero (Type sf)" by (cases sf) simp
  have skipped: "?val = (pre @ [Zero (Type sf)]) @ map Zero_field rest @ post"
    by (simp add: zf)
  have updated: "?val[i := x] = (pre @ [x]) @ map Zero_field rest @ post" for x
    using Cons.prems by (simp add: list_update_append)
  have len: "length (pre @ [x]) = Suc i" for x :: goval
    using Cons.prems by simp
  obtain tr0 r0 where ps: "specPathStage e c rest = (tr0, r0)"
    by (cases "specPathStage e c rest")
  show ?case
  proof (cases rule: pathLoop_Cons [of sf e c rest i ?val h f])
    case (skip h1 f1)
    have "pathLoop e c (sf # rest) i ?val h f
        = pathLoop e c rest (Suc i) ((pre @ [Zero (Type sf)]) @ map Zero_field rest @ post) h1 f1"
      using skip(2) skipped by simp
    also note Cons.IH [of "pre @ [Zero (Type sf)]" "Suc i" h1 f1, OF len]
    finally show ?thesis
      using skip(1,3,4) ps by (cases r0) (auto split: prod.splits)
  next
    case (fail k er)
    then show ?thesis by simp
  next
    case (bound k sfv h1 f1)
    have "pathLoop e c rest (Suc i) (?val[i := sfv]) h1 f1
        = pathLoop e c rest (Suc i) ((pre @ [sfv]) @ map Zero_field rest @ post) h1 f1"
      using updated [of sfv] by simp
    also note Cons.IH [of "pre @ [sfv]" "Suc i" h1 f1, OF len]
    finally have "pathLoop e c rest (Suc i) (?val[i := sfv]) h1 f1 =
       (case specPathStage e c rest of
          (tr, Inl er) \<Rightarrow> (tr, Inl er)
        | (tr, Inr xs) \<Rightarrow>
            (tr, Inr ((pre @ [sfv]) @ xs @ post,
                      h1 + length (filter (hasTag ''header'') rest),
                      f1 + length (filter (hasTag ''form'') rest))))" .
    with bound ps show ?thesis by (cases r0) (auto split: prod.splits)
  qed
qed

lemma later_stages:
  "queryStage c ty fn hn tr v =
     (case specRunStages c ty ((if 0 < fn then [CallBindQuery] else [])
                           @ (if 0 < hn then [CallShouldBindHeader] else [])
                           @ [CallShouldBind]) v of
        (tr', r) \<Rightarrow> (tr @ tr', r))"
  by (auto simp: queryStage_def headerStage_def bodyStage_def split: sum.splits)

lemma bindSources_specDecode:
  "bindSources e c n fs = specDecode e c n fs"
proof -
  have tags: "(filter P fs \<noteq> []) = list_ex P fs" for P :: "field \<Rightarrow> bool"
    by (simp add: list_ex_iff filter_empty_conv)
  obtain tr r where ps: "specPathStage e c fs = (tr, r)"
    by (cases "specPathStage e c fs")
  from pathLoop_specPathStage [of "[]" 0 e c fs "[]" 0 0]
  have pl: "pathLoop e c fs 0 (map Zero_field fs) 0 0 =
     (case specPathStage e c fs of
        (tr, Inl er) \<Rightarrow> (tr, Inl er)
      | (tr, Inr xs) \<Rightarrow>
          (tr, Inr (xs, length (filter (hasTag ''header'') fs),
                    length (filter (hasTag ''form'') fs))))"
    by simp
  show ?thesis
    unfolding bindSources_def specDecode_def pl ps
    by (cases r) (simp_all add: later_stages tags specLaterStages_def)
qed

lemma specPathStage_log:
  "\<exists>rest. fst (specPathStage e c fs) @ rest = map CallParam (pathKeys fs)"
  "snd (specPathStage e c fs) = Inr vs \<Longrightarrow> fst (specPathStage e c fs) = map CallParam (pathKeys fs)"
proof (induction fs arbitrary: vs)
  case Nil
  {
    case 1
    show ?case by (simp add: pathKeys_def)
  next
    case 2
    show ?case by (simp add: pathKeys_def)
  }
next
  case (Cons sf rest)
  obtain tr0 r0 where ps: "specPathStage e c rest = (tr0, r0)"
    by (cases "specPathStage e c rest")
  {
    case 1
    from Cons.IH(1) ps obtain more where "tr0 @ more = map CallParam (pathKeys rest)"
      by auto
    then show ?case
      using ps
      by (cases r0) (auto simp: pathKeys_def map_filter_simps split: option.splits sum.splits)
  next
    case 2
    then show ?case
      using ps Cons.IH(2)
      by (cases r0) (auto simp: pathKeys_def map_filter_simps split: option.splits sum.splits)
  }
qed

lemma specRunStages_log:
  "\<exists>rest. fst (specRunStages c ty sts v) @ rest = sts"
  "snd (specRunStages c ty sts v) = Inr v' \<Longrightarrow> fst (specRunStages c ty sts v) = sts"
proof (induction sts arbitrary: v)
  case Nil
  {
    case 1
    show ?case by simp
  next
    case 2
    show ?case by simp
  }
next
  case (Cons st rest)
  {
    case 1
    show ?case
    proof (cases "specBinder c st ty v")
      case (Inl er)
      then show ?thesis by simp
    next
      case (Inr v1)
      with Cons.IH(1) [of v1] show ?thesis by (auto split: prod.splits)
    qed
  next
    case 2
    show ?case
    proof (cases "specBinder c st ty v")
      case (Inl er)
      with 2 show ?thesis by simp
    next
      case (Inr v1)
      obtain tr r where rs: "specRunStages c ty rest v1 = (tr, r)"
        by (cases "specRunStages c ty rest v1")
      with 2 Inr have "r = Inr v'" by simp
      with Cons.IH(2) [of v1] rs have "tr = rest" by simp
      with Inr rs show ?thesis by simp
    qed
  }
qed

lemma specDecode_log:
  "\<exists>rest. fst (specDecode e c n fs) @ rest = map CallParam (pathKeys fs) @ specLaterStages fs"
  "snd (specDecode e c n fs) = Inr v \<Longrightarrow>
     fst (specDecode e c n fs) = map CallParam (pathKeys fs) @ specLaterStages fs"
proof -
  obtain tr r where ps: "specPathStage e c fs = (tr, r)"
    by (cases "specPathStage e c fs")
  show "\<exists>rest. fst (specDecode e c n fs) @ rest = map CallParam (pathKeys fs) @ specLaterStages fs"
  proof (cases r)
    case (Inl er)
    from specPathStage_log(1) [of e c fs] ps obtain more where "tr @ more = map CallParam (pathKeys fs)"
      by auto
    then have "tr @ (more @ specLaterStages fs) = map CallParam (pathKeys fs) @ specLaterStages fs"
      by simp
    then have "\<exists>rest. tr @ rest = map CallParam (pathKeys fs) @ specLaterStages fs" ..
    with ps Inl show ?thesis by (simp add: specDecode_def)
  next
    case (Inr vs)
    with specPathStage_log(2) [of e c fs vs] ps have full: "tr = map CallParam (pathKeys fs)"
      by simp
    obtain tr' r' where rs: "specRunStages c (TStruct n fs) (specLaterStages fs) (VStruct vs) = (tr', r')"
      by (cases "specRunStages c (TStruct n fs) (specLaterStages fs) (VStruct vs)")
    from specRunStages_log(1) [of c "TStruct n fs" "specLaterStages fs" "VStruct vs"] rs
    obtain more where "tr' @ more = specLaterStages fs" by auto
    then have "(tr @ tr') @ more = map CallParam (pathKeys fs) @ specLaterStages fs"
      using full by simp
    then have "\<exists>rest. (tr @ tr') @ rest = map CallParam (pathKeys fs) @ specLaterStages fs" ..
    with ps Inr rs show ?thesis by (simp add: specDecode_def)
  qed
  show "fst (specDecode e c n fs) = map CallParam (pathKeys fs) @ specLaterStages fs"
    if "snd (specDecode e c n fs) = Inr v"
  proof (cases r)
    case (Inl er)
    with ps that show ?thesis by (simp add: specDecode_def)
  next
    case (Inr vs)
    with specPathStage_log(2) [of e c fs vs] ps have full: "tr = map CallParam (pathKeys fs)"
      by simp
    obtain tr' r' where rs: "specRunStages c (TStruct n fs) (specLaterStages fs) (VStruct vs) = (tr', r')"
      by (cases "specRunStages c (TStruct n fs) (specLaterStages fs) (VStruct vs)")
    with ps Inr that have "r' = Inr v" by (simp add: specDecode_def)
    with specRunStages_log(2) [of c "TStruct n fs" "specLaterStages fs" "VStruct vs" v] rs
    have "tr' = specLaterStages fs" by simp
    with ps Inr rs full show ?thesis by (simp add: specDecode_def)
  qed
qed

text \<open>
  Claim C4. \<^verbatim>\<open>bindingFormValue\<close> runs its stages in a fixed order, as the staged decode
  above words it: first the Path stage over the fields in order, then the Query stage
  if and only if some (exported) field carries a \<^verbatim>\<open>form\<close> tag, then the Header stage if
  and only if some carries a \<^verbatim>\<open>header\<close> tag, then the Body stage whatever the fields
  are, each stage on the record the previous one left and none after a failure; the
  defaults are applied to the record the Body stage returns. Hence the context calls
  of a decode are an initial part of: the parameter lookups of the path fields in
  order, the query bind if a \<^verbatim>\<open>form\<close> tag exists, the header bind if a \<^verbatim>\<open>header\<close> tag
  exists, the body bind; all of them when the decode succeeds, and the body bind is
  missing only when the decode failed before reaching it.
\<close>

theorem C4_stage_order:
  assumes "ty = TStruct n fs \<or> ty = TPtr (TStruct n fs)"
  shows "bindSources e c n fs = specDecode e c n fs
       \<and> bindingFormValue e c (TStruct n fs) =
           (case specDecode e c n fs of
              (tr, Inl er) \<Rightarrow> (tr, Failed er)
            | (tr, Inr v) \<Rightarrow> (tr, applyDefaultValues e (TStruct n fs) v))
       \<and> fst (bindingFormValue e c ty) = fst (specDecode e c n fs)
       \<and> (\<forall>er. snd (specDecode e c n fs) = Inl er \<longrightarrow> snd (bindingFormValue e c ty) = Failed er)
       \<and> (\<exists>rest. fst (bindingFormValue e c ty) @ rest = map CallParam (pathKeys fs) @ specLaterStages fs)
       \<and> (\<forall>v. snd (bindingFormValue e c ty) = Returned v \<longrightarrow>
             fst (bindingFormValue e c ty) = map CallParam (pathKeys fs) @ specLaterStages fs)
       \<and> sorted (map stageRank (fst (bindingFormValue e c ty)))
       \<and> distinct (filter (\<lambda>x. 0 < stageRank x) (fst (bindingFormValue e c ty)))
       \<and> (CallBindQuery \<in> set (fst (bindingFormValue e c ty)) \<longrightarrow> (\<exists>sf\<in>set fs. hasTag ''form'' sf))
       \<and> (CallShouldBindHeader \<in> set (fst (bindingFormValue e c ty)) \<longrightarrow> (\<exists>sf\<in>set fs. hasTag ''header'' sf))
       \<and> (CallShouldBind \<notin> set (fst (bindingFormValue e c ty)) \<longrightarrow>
            (\<exists>er. snd (bindingFormValue e c ty) = Failed er))"
proof -
  have tr: "fst (bindingFormValue e c ty) = fst (bindSources e c n fs)"
    using assms by (elim disjE) (simp_all only: bindingFormValue_ptr(1) bindingFormValue_struct(1))
  have fl: "snd (bindingFormValue e c ty) = Failed er" if "snd (bindSources e c n fs) = Inl er" for er
    using assms that
    by (elim disjE) (simp_all only: bindingFormValue_ptr(2) bindingFormValue_struct(2))
  have ok: "\<exists>v0. snd (bindSources e c n fs) = Inr v0" if "snd (bindingFormValue e c ty) = Returned v" for v
    using assms that bindingFormValue_ptr(3) [of e c "TStruct n fs" v]
      bindingFormValue_struct(3) [of e c n fs]
    by blast
  have staged: "bindingFormValue e c (TStruct n fs) =
           (case specDecode e c n fs of
              (tr, Inl er) \<Rightarrow> (tr, Failed er)
            | (tr, Inr v) \<Rightarrow> (tr, applyDefaultValues e (TStruct n fs) v))"
    by (simp add: bindSources_specDecode)
  have part: "\<exists>rest. fst (bindingFormValue e c ty) @ rest = map CallParam (pathKeys fs) @ specLaterStages fs"
    unfolding tr bindSources_specDecode by (rule specDecode_log(1))
  have full: "fst (bindingFormValue e c ty) = map CallParam (pathKeys fs) @ specLaterStages fs"
    if "snd (bindingFormValue e c ty) = Returned v" for v
    using ok [OF that] specDecode_log(2) [of e c n fs]
    unfolding tr bindSources_specDecode by blast
  have old: "sorted (map stageRank (fst (bindingFormValue e c ty)))
       \<and> distinct (filter (\<lambda>x. 0 < stageRank x) (fst (bindingFormValue e c ty)))
       \<and> (CallBindQuery \<in> set (fst (bindingFormValue e c ty)) \<longrightarrow> (\<exists>sf\<in>set fs. hasTag ''form'' sf))
       \<and> (CallShouldBindHeader \<in> set (fst (bindingFormValue e c ty)) \<longrightarrow> (\<exists>sf\<in>set fs. hasTag ''header'' sf))
       \<and> (CallShouldBind \<notin> set (fst (bindingFormValue e c ty)) \<longrightarrow>
            (\<exists>er. snd (bindingFormValue e c ty) = Failed er))"
    unfolding tr using bindSources_log [of e c n fs] fl by blast
  have tr': "fst (bindingFormValue e c ty) = fst (specDecode e c n fs)"
    using tr by (simp add: bindSources_specDecode)
  have fl': "\<forall>er. snd (specDecode e c n fs) = Inl er \<longrightarrow> snd (bindingFormValue e c ty) = Failed er"
    using fl by (simp add: bindSources_specDecode)
  from bindSources_specDecode [of e c n fs] staged tr' fl' part full old show ?thesis by blast
qed

lemma specRunStages_keeps:
  "snd (specRunStages c ty sts v0) = Inr v \<Longrightarrow> keptThrough c ty sts i v0 \<Longrightarrow> fieldAt i v = fieldAt i v0"
proof (induction sts arbitrary: v0)
  case Nil
  then show ?case by simp
next
  case (Cons st rest)
  show ?case
  proof (cases "specBinder c st ty v0")
    case (Inl er)
    with Cons.prems show ?thesis by simp
  next
    case (Inr v1)
    with Cons.prems have "snd (specRunStages c ty rest v1) = Inr v" "keptThrough c ty rest i v1"
      "fieldAt i v1 = fieldAt i v0"
      by (auto split: prod.splits)
    with Cons.IH [of v1] show ?thesis by simp
  qed
qed

lemma keepsField_keptThrough:
  "\<forall>st\<in>set sts. keepsField ty i (specBinder c st) \<Longrightarrow> keptThrough c ty sts i v"
  by (induction sts arbitrary: v) (auto simp: keepsField_def split: sum.splits)

text \<open>
  Claim C5, amended. The Path stage runs before the Query, Header and Body stages, and
  those hand the whole record, path-tagged fields included, to gin's binders: the
  record the decode ends with is what the stages that run (Query and Header only when a
  field carries their tag, Body always) make, in this order, of the record the Path
  stage built. A path-tagged field therefore keeps the value the Path stage gave it
  (the coerced path parameter) provided each binder that runs leaves that field of the
  record it receives unchanged; in particular when the binders that run keep that
  field on every record. The binder adds no protection of its own.
\<close>

theorem C5_path_field_kept_by_framing_binders:
  assumes "i < length fs" and "pathKeyOf (fs ! i) = Some key"
    and "snd (bindSources e c n fs) = Inr v"
  shows "\<exists>val hn fn. snd (pathLoop e c fs 0 (map Zero_field fs) 0 0) = Inr (val, hn, fn)
          \<and> stringToVal e (Param c key) (Type (fs ! i)) = Inr (val ! i)
          \<and> snd (specRunStages c (TStruct n fs) (specLaterStages fs) (VStruct val)) = Inr v
          \<and> (keptThrough c (TStruct n fs) (specLaterStages fs) i (VStruct val) \<longrightarrow>
               fieldAt i v = Some (val ! i))
          \<and> (((\<exists>sf\<in>set fs. hasTag ''form'' sf) \<longrightarrow> keepsField (TStruct n fs) i (BindQuery c))
             \<and> ((\<exists>sf\<in>set fs. hasTag ''header'' sf) \<longrightarrow> keepsField (TStruct n fs) i (ShouldBindHeader c))
             \<and> keepsField (TStruct n fs) i (ShouldBind c) \<longrightarrow>
               fieldAt i v = Some (val ! i))"
proof -
  obtain ptr pr where pl: "pathLoop e c fs 0 (map Zero_field fs) 0 0 = (ptr, pr)"
    by (cases "pathLoop e c fs 0 (map Zero_field fs) 0 0")
  with assms(3) obtain val hn fn where pr: "pr = Inr (val, hn, fn)"
    by (cases pr) (auto simp: bindSources_def)
  with pl have ok: "snd (pathLoop e c fs 0 (map Zero_field fs) 0 0) = Inr (val, hn, fn)" by simp
  from pathLoop_fields [OF ok] assms(1,2)
  have len: "length val = length fs"
    and coerced: "stringToVal e (Param c key) (Type (fs ! i)) = Inr (val ! i)"
    by auto
  from pathLoop_specPathStage [of "[]" 0 e c fs "[]" 0 0] pl pr
  have ps: "snd (specPathStage e c fs) = Inr val" "fst (specPathStage e c fs) = ptr"
    by (auto split: prod.splits sum.splits)
  from assms(3) have "snd (specDecode e c n fs) = Inr v"
    by (simp add: bindSources_specDecode)
  with ps have run: "snd (specRunStages c (TStruct n fs) (specLaterStages fs) (VStruct val)) = Inr v"
    by (cases "specPathStage e c fs") (auto simp: specDecode_def split: prod.splits)
  have start: "fieldAt i (VStruct val) = Some (val ! i)"
    using len assms(1) by (simp add: fieldAt_def)
  have kept: "fieldAt i v = Some (val ! i)"
    if "keptThrough c (TStruct n fs) (specLaterStages fs) i (VStruct val)"
    using specRunStages_keeps [OF run that] start by simp
  have framed: "fieldAt i v = Some (val ! i)"
    if "((\<exists>sf\<in>set fs. hasTag ''form'' sf) \<longrightarrow> keepsField (TStruct n fs) i (BindQuery c))
             \<and> ((\<exists>sf\<in>set fs. hasTag ''header'' sf) \<longrightarrow> keepsField (TStruct n fs) i (ShouldBindHeader c))
             \<and> keepsField (TStruct n fs) i (ShouldBind c)"
  proof -
    from that have "\<forall>st\<in>set (specLaterStages fs). keepsField (TStruct n fs) i (specBinder c st)"
      by (auto simp: specLaterStages_def list_ex_iff split: if_splits)
    from keepsField_keptThrough [OF this] kept show ?thesis by blast
  qed
  from ok coerced run kept framed show ?thesis by blast
qed

lemma stringToVal_unsupported:
  "unsupportedType ty \<Longrightarrow> s \<noteq> [] \<Longrightarrow> stringToVal e s ty = Inl (UnsupportedConversion s ty)"
  by (simp add: unsupportedType_def stringToVal_def)

lemma pathLoop_unsupported:
  assumes "sf \<in> set fs" "pathKeyOf sf = Some key" "unsupportedType (Type sf)" "Param c key \<noteq> []"
  shows "\<exists>k er. snd (pathLoop e c fs i val h f) = Inl (PathParameterError k er)"
  using assms(1)
proof (induction fs arbitrary: i val h f)
  case Nil
  then show ?case by simp
next
  case (Cons sf0 rest)
  show ?case
  proof (cases rule: pathLoop_Cons [of sf0 e c rest i val h f])
    case (skip h1 f1)
    with Cons.prems assms(2) have "sf \<in> set rest" by auto
    from Cons.IH [OF this, of "Suc i" val h1 f1] skip show ?thesis by simp
  next
    case (fail k er0)
    then show ?thesis by simp
  next
    case (bound k sfv h1 f1)
    have "sf \<noteq> sf0"
    proof
      assume "sf = sf0"
      with bound(1,2) assms(2,3,4) stringToVal_unsupported [of "Type sf" "Param c key" e]
      show False by simp
    qed
    with Cons.prems have "sf \<in> set rest" by simp
    from Cons.IH [OF this, of "Suc i" "val[i := sfv]" h1 f1] bound show ?thesis by simp
  qed
qed

lemma registration_ignores_fields:
  assumes "rec = TStruct n fs \<or> rec = TPtr (TStruct n fs)"
  shows "FormBindingGinHandlerFunc e (Func [TPtr ginCtxTy, rec] results) =
           (if results = [] then Inl (ErrorString ''function must have at least one return value'')
            else if length results > 2 then Inl (ErrorString ''function can have at most 2 return values'')
            else if length results = 1 \<and> \<not> ImplementsError e (results ! 0)
              then Inl (ErrorString ''single return value must be error'')
            else if length results = 2 \<and> \<not> ImplementsError e (results ! 1)
              then Inl (ErrorString ''second return value must be error'')
            else Inr \<lparr>inNum = 2, outNum = length results, ins = [TPtr ginCtxTy, rec], outs = results\<rparr>)"
  using assms by (elim disjE) (simp_all add: FormBindingGinHandlerFunc_def)

text \<open>
  Claim C3, amended. Registration checks the handler's call shape only and never looks
  at the fields of the record: for a handler taking the context and a record, by value
  or by pointer, whose record has a \<^verbatim>\<open>path\<close>-tagged field of an unsupported type, the
  verdict is decided by the results alone (one or two of them, the last implementing
  \<^verbatim>\<open>error\<close>), and the handler is registered when they fit. The unsupported type is met
  while serving a request: with any registration for that record, whenever the path
  parameter of such a field is not empty its coercion is the unsupported-conversion
  error, binding fails in the Path stage, the failure is reported through
  \<^verbatim>\<open>HandleError\<close> as a \<^verbatim>\<open>*BindingError\<close> and neither the validator nor the handler runs; an
  empty parameter gives the zero value without error.
\<close>

theorem C3_unsupported_path_type_fails_per_request:
  assumes "rec = TStruct n fs \<or> rec = TPtr (TStruct n fs)"
  shows "FormBindingGinHandlerFunc e (Func [TPtr ginCtxTy, rec] results) =
           (if results = [] then Inl (ErrorString ''function must have at least one return value'')
            else if length results > 2 then Inl (ErrorString ''function can have at most 2 return values'')
            else if length results = 1 \<and> \<not> ImplementsError e (results ! 0)
              then Inl (ErrorString ''single return value must be error'')
            else if length results = 2 \<and> \<not> ImplementsError e (results ! 1)
              then Inl (ErrorString ''second return value must be error'')
            else Inr \<lparr>inNum = 2, outNum = length results, ins = [TPtr ginCtxTy, rec], outs = results\<rparr>)
       \<and> (sf \<in> set fs \<and> pathKeyOf sf = Some key \<and> unsupportedType (Type sf) \<longrightarrow>
            stringToVal e [] (Type sf) = Inr (Zero (Type sf))
          \<and> (Param c key \<noteq> [] \<longrightarrow>
               stringToVal e (Param c key) (Type sf) = Inl (UnsupportedConversion (Param c key) (Type sf)))
          \<and> (Param c key \<noteq> [] \<and> inNum reg = 2 \<and> ins reg ! 1 = rec \<longrightarrow>
               (\<exists>k er. snd (bindingFormValue e c rec) = Failed (PathParameterError k er)
                  \<and> responses (closure e validator reg funcVal c)
                      = [HandleError (IfaceHolds (BindingError (PathParameterError k er)))]
                  \<and> validatorCalls (closure e validator reg funcVal c) = []
                  \<and> handlerCalls (closure e validator reg funcVal c) = [])))"
proof -
  note reg = registration_ignores_fields [OF assms, of e results]
  have request: "stringToVal e [] (Type sf) = Inr (Zero (Type sf))
          \<and> (Param c key \<noteq> [] \<longrightarrow>
               stringToVal e (Param c key) (Type sf) = Inl (UnsupportedConversion (Param c key) (Type sf)))
          \<and> (Param c key \<noteq> [] \<and> inNum reg = 2 \<and> ins reg ! 1 = rec \<longrightarrow>
               (\<exists>k er. snd (bindingFormValue e c rec) = Failed (PathParameterError k er)
                  \<and> responses (closure e validator reg funcVal c)
                      = [HandleError (IfaceHolds (BindingError (PathParameterError k er)))]
                  \<and> validatorCalls (closure e validator reg funcVal c) = []
                  \<and> handlerCalls (closure e validator reg funcVal c) = []))"
    if field: "sf \<in> set fs" "pathKeyOf sf = Some key" "unsupportedType (Type sf)"
  proof -
    have own: "stringToVal e (Param c key) (Type sf) = Inl (UnsupportedConversion (Param c key) (Type sf))"
      if "Param c key \<noteq> []"
      using field(3) that by (rule stringToVal_unsupported)
    have absent: "stringToVal e [] (Type sf) = Inr (Zero (Type sf))"
      by (simp add: stringToVal_def)
    have served: "\<exists>k er. snd (bindingFormValue e c rec) = Failed (PathParameterError k er)
               \<and> responses (closure e validator reg funcVal c)
                   = [HandleError (IfaceHolds (BindingError (PathParameterError k er)))]
               \<and> validatorCalls (closure e validator reg funcVal c) = []
               \<and> handlerCalls (closure e validator reg funcVal c) = []"
      if "Param c key \<noteq> []" "inNum reg = 2" "ins reg ! 1 = rec"
    proof -
      from pathLoop_unsupported [OF field that(1), of e 0 "map Zero_field fs" 0 0]
      obtain k er where "snd (pathLoop e c fs 0 (map Zero_field fs) 0 0) = Inl (PathParameterError k er)"
        by blast
      then have "snd (bindSources e c n fs) = Inl (PathParameterError k er)"
        by (auto simp: bindSources_def split: prod.splits)
      then have "snd (bindingFormValue e c (TStruct n fs)) = Failed (PathParameterError k er)"
        by (rule bindingFormValue_struct(2))
      with assms have failed: "snd (bindingFormValue e c rec) = Failed (PathParameterError k er)"
        by (elim disjE) (simp_all only: bindingFormValue_ptr(2))
      then have "responses (closure e validator reg funcVal c)
                   = [HandleError (IfaceHolds (BindingError (PathParameterError k er)))]
               \<and> validatorCalls (closure e validator reg funcVal c) = []
               \<and> handlerCalls (closure e validator reg funcVal c) = []"
        using that(2,3)
        by (cases "bindingFormValue e c rec")
           (simp add: closure_def log_skips_ctx responses_def validatorCalls_def handlerCalls_def
              isResponse_def)
      with failed show ?thesis by blast
    qed
    from own absent served show ?thesis by blast
  qed
  from reg request show ?thesis by blast
qed

subsection \<open>Default application\<close>

lemma applyFields_nth:
  assumes "applyFields e fs vs = Returned vs'" and "length vs = length fs"
  shows "length vs' = length fs \<and> (\<forall>i<length fs. applyField e (fs ! i) (vs ! i) = Returned (vs' ! i))"
  using assms
proof (induction fs arbitrary: vs vs')
  case Nil
  then show ?case by simp
next
  case (Cons sf rest)
  then obtain v vs0 where vs: "vs = v # vs0" by (cases vs) auto
  with Cons.prems obtain v' vs0' where
    hd: "applyField e sf v = Returned v'" and tl: "applyFields e rest vs0 = Returned vs0'"
    and res: "vs' = v' # vs0'"
    by (auto split: outcome.splits)
  from Cons.IH [OF tl] Cons.prems(2) vs
  have IH: "length vs0' = length rest" "\<forall>i<length rest. applyField e (rest ! i) (vs0 ! i) = Returned (vs0' ! i)"
    by auto
  have "applyField e ((sf # rest) ! i) (vs ! i) = Returned (vs' ! i)" if "i < length (sf # rest)" for i
    using that hd IH vs res by (cases i) auto
  with IH res show ?case by simp
qed

lemma applyDefaultValues_nth:
  assumes "applyDefaultValues e (TStruct n fs) (VStruct vs) = Returned (VStruct vs')"
    and "length vs = length fs" and "i < length fs"
  shows "applyField e (fs ! i) (vs ! i) = Returned (vs' ! i)"
proof -
  from assms(1) have "applyFields e fs vs = Returned vs'"
    by (auto split: outcome.splits)
  from applyFields_nth [OF this assms(2)] assms(3) show ?thesis by blast
qed

lemma setDefaultValue_plain:
  "Kind ty \<noteq> KPointer \<Longrightarrow> setDefaultValue e ty v d nm = Inr x \<Longrightarrow> stringToVal e d ty = Inr x"
  by (cases ty) (auto split: sum.splits)

lemma setDefaultValue_nil:
  "setDefaultValue e (TPtr t) (VPtr None) d nm = Inr x \<Longrightarrow>
     \<exists>y. setDefaultValue e t (Zero t) d nm = Inr y \<and> x = VPtr (Some y)"
  by (auto split: sum.splits)

text \<open>
  Claim C2, amended. When \<^verbatim>\<open>applyDefaultValues\<close> returns without error, every exported,
  non-embedded field is set from its default literal iff it carries a \<^verbatim>\<open>default\<close> tag
  and its value after the source stages is the zero value of its type (as
  \<^verbatim>\<open>IsZero\<close> tells): without the tag, or with a non-zero value, the field is unchanged;
  with both, a non-pointer field holds the literal coerced to its type (so the literal
  does coerce), and a nil pointer field points to fresh storage that was set from the
  literal by the same rule, which for a pointee that is no pointer is the literal
  coerced to the pointee type. An unexported field is unchanged whatever its tags.
\<close>

theorem C2_default_set_iff_tagged_and_zero:
  assumes "applyDefaultValues e (TStruct n fs) (VStruct vs) = Returned (VStruct vs')"
    and "length vs = length fs" and "i < length fs"
  shows "(\<not> IsExported (fs ! i) \<longrightarrow> vs' ! i = vs ! i)
       \<and> (IsExported (fs ! i) \<and> \<not> Anonymous (fs ! i) \<longrightarrow>
            (Lookup (fs ! i) ''default'' = None \<or> \<not> IsZero (Type (fs ! i)) (vs ! i) \<longrightarrow> vs' ! i = vs ! i)
          \<and> (\<forall>d. Lookup (fs ! i) ''default'' = Some d \<and> IsZero (Type (fs ! i)) (vs ! i)
                   \<and> Kind (Type (fs ! i)) \<noteq> KPointer \<longrightarrow>
                 stringToVal e d (Type (fs ! i)) = Inr (vs' ! i))
          \<and> (\<forall>d t. Lookup (fs ! i) ''default'' = Some d \<and> vs ! i = VPtr None
                   \<and> Type (fs ! i) = TPtr t \<longrightarrow>
                 (\<exists>y. setDefaultValue e t (Zero t) d (Name (fs ! i)) = Inr y
                    \<and> vs' ! i = VPtr (Some y)
                    \<and> (Kind t \<noteq> KPointer \<longrightarrow> stringToVal e d t = Inr y))))"
proof -
  note step = applyDefaultValues_nth [OF assms]
  have u: "vs' ! i = vs ! i" if "\<not> IsExported (fs ! i)"
    using that step by (cases "fs ! i") auto
  have x: "(Lookup (fs ! i) ''default'' = None \<or> \<not> IsZero (Type (fs ! i)) (vs ! i) \<longrightarrow> vs' ! i = vs ! i)
          \<and> (\<forall>d. Lookup (fs ! i) ''default'' = Some d \<and> IsZero (Type (fs ! i)) (vs ! i)
                   \<and> Kind (Type (fs ! i)) \<noteq> KPointer \<longrightarrow>
                 stringToVal e d (Type (fs ! i)) = Inr (vs' ! i))
          \<and> (\<forall>d t. Lookup (fs ! i) ''default'' = Some d \<and> vs ! i = VPtr None
                   \<and> Type (fs ! i) = TPtr t \<longrightarrow>
                 (\<exists>y. setDefaultValue e t (Zero t) d (Name (fs ! i)) = Inr y
                    \<and> vs' ! i = VPtr (Some y)
                    \<and> (Kind t \<noteq> KPointer \<longrightarrow> stringToVal e d t = Inr y)))"
    if ex: "IsExported (fs ! i)" "\<not> Anonymous (fs ! i)"
  proof -
    obtain nm tg ty where sf: "fs ! i = Field nm True False tg ty"
      using ex by (cases "fs ! i") auto
    from step have step': "applyField e (Field nm True False tg ty) (vs ! i) = Returned (vs' ! i)"
      by (simp add: sf)
    have a: "vs' ! i = vs ! i"
      if "Lookup (fs ! i) ''default'' = None \<or> \<not> IsZero (Type (fs ! i)) (vs ! i)"
      using that step' by (auto simp: sf Lookup_def split: option.splits)
    have set: "setDefaultValue e ty (vs ! i) d nm = Inr (vs' ! i)"
      if "Lookup (fs ! i) ''default'' = Some d" "IsZero (Type (fs ! i)) (vs ! i)" for d
      using that step' by (auto simp: sf Lookup_def split: sum.splits)
    have b: "stringToVal e d (Type (fs ! i)) = Inr (vs' ! i)"
      if "Lookup (fs ! i) ''default'' = Some d" "IsZero (Type (fs ! i)) (vs ! i)"
         "Kind (Type (fs ! i)) \<noteq> KPointer" for d
      using set [OF that(1,2)] that(3) setDefaultValue_plain [of ty e "vs ! i" d nm "vs' ! i"]
      by (simp add: sf)
    have c: "\<exists>y. setDefaultValue e t (Zero t) d (Name (fs ! i)) = Inr y
                    \<and> vs' ! i = VPtr (Some y)
                    \<and> (Kind t \<noteq> KPointer \<longrightarrow> stringToVal e d t = Inr y)"
      if "Lookup (fs ! i) ''default'' = Some d" "vs ! i = VPtr None" "Type (fs ! i) = TPtr t" for d t
    proof -
      from that(2) have "IsZero (Type (fs ! i)) (vs ! i)" by simp
      from set [OF that(1) this] that(2,3)
      have "setDefaultValue e (TPtr t) (VPtr None) d nm = Inr (vs' ! i)"
        by (simp add: sf)
      from setDefaultValue_nil [OF this]
      obtain y where y: "setDefaultValue e t (Zero t) d nm = Inr y" "vs' ! i = VPtr (Some y)"
        by blast
      have "stringToVal e d t = Inr y" if "Kind t \<noteq> KPointer"
        using setDefaultValue_plain [OF that y(1)] .
      with y show ?thesis by (simp add: sf)
    qed
    from a b c show ?thesis by blast
  qed
  from u x show ?thesis by blast
qed

lemma applyField_embedded:
  assumes "applyField e sf v = Returned v'" and "IsExported sf" and "Anonymous sf"
  shows "(\<forall>t. Type sf = TPtr t \<and> v = VPtr None \<longrightarrow> v' = VPtr None)
       \<and> (\<forall>t p. Type sf = TPtr t \<and> v = VPtr (Some p) \<longrightarrow>
             (\<exists>p'. applyDefaultValues e t p = Returned p' \<and> v' = VPtr (Some p')))
       \<and> (Kind (Type sf) \<noteq> KPointer \<longrightarrow> applyDefaultValues e (Type sf) v = Returned v')"
proof -
  obtain nm tg ty where sf: "sf = Field nm True True tg ty"
    using assms(2,3) by (cases sf) auto
  have a: "v' = VPtr None" if "Type sf = TPtr t" "v = VPtr None" for t
    using assms(1) that by (simp add: sf)
  have b: "\<exists>p'. applyDefaultValues e t p = Returned p' \<and> v' = VPtr (Some p')"
    if "Type sf = TPtr t" "v = VPtr (Some p)" for t p
    using assms(1) that by (auto simp: sf split: outcome.splits)
  have c: "applyDefaultValues e (Type sf) v = Returned v'" if "Kind (Type sf) \<noteq> KPointer"
    using assms(1) that by (cases ty) (auto simp: sf split: outcome.splits)
  from a b c show ?thesis by blast
qed

text \<open>
  Claim C6, amended. Default application recurses into every exported embedded
  (anonymous) record held by value or through a non-nil pointer, so the embedded
  record's own \<^verbatim>\<open>default\<close> tags apply; a nil pointer to an embedded record is left nil:
  nothing is allocated and no default of that record applies. The Path stage binds the
  fields declared on the record itself only: an embedded record without a \<^verbatim>\<open>path\<close> tag
  of its own is still zero after the Path stage, whatever tags its fields carry, and
  the counters that trigger the Query and Header stages count the record's own fields.
\<close>

theorem C6_embedded_records:
  assumes "i < length fs" and "IsExported (fs ! i)" and "Anonymous (fs ! i)"
    and "length vs = length fs"
  shows "(applyDefaultValues e (TStruct n fs) (VStruct vs) = Returned (VStruct vs') \<longrightarrow>
            (\<forall>t. Type (fs ! i) = TPtr t \<and> vs ! i = VPtr None \<longrightarrow> vs' ! i = VPtr None)
          \<and> (\<forall>t p. Type (fs ! i) = TPtr t \<and> vs ! i = VPtr (Some p) \<longrightarrow>
                (\<exists>p'. applyDefaultValues e t p = Returned p' \<and> vs' ! i = VPtr (Some p')))
          \<and> (Kind (Type (fs ! i)) \<noteq> KPointer \<longrightarrow>
                applyDefaultValues e (Type (fs ! i)) (vs ! i) = Returned (vs' ! i)))
       \<and> (pathKeyOf (fs ! i) = None
            \<and> snd (pathLoop e c fs 0 (map Zero_field fs) 0 0) = Inr (val, hn, fn) \<longrightarrow>
            val ! i = Zero (Type (fs ! i))
          \<and> hn = length (filter (hasTag ''header'') fs)
          \<and> fn = length (filter (hasTag ''form'') fs))"
proof -
  have a: "(\<forall>t. Type (fs ! i) = TPtr t \<and> vs ! i = VPtr None \<longrightarrow> vs' ! i = VPtr None)
          \<and> (\<forall>t p. Type (fs ! i) = TPtr t \<and> vs ! i = VPtr (Some p) \<longrightarrow>
                (\<exists>p'. applyDefaultValues e t p = Returned p' \<and> vs' ! i = VPtr (Some p')))
          \<and> (Kind (Type (fs ! i)) \<noteq> KPointer \<longrightarrow>
                applyDefaultValues e (Type (fs ! i)) (vs ! i) = Returned (vs' ! i))"
    if "applyDefaultValues e (TStruct n fs) (VStruct vs) = Returned (VStruct vs')"
    using applyField_embedded [OF applyDefaultValues_nth [OF that assms(4,1)] assms(2,3)] .
  have b: "val ! i = Zero (Type (fs ! i)) \<and> hn = length (filter (hasTag ''header'') fs)
          \<and> fn = length (filter (hasTag ''form'') fs)"
    if "pathKeyOf (fs ! i) = None" "snd (pathLoop e c fs 0 (map Zero_field fs) 0 0) = Inr (val, hn, fn)"
  proof -
    from pathLoop_fields [OF that(2)] that(1) assms(1)
    have "val ! i = map Zero_field fs ! i" by auto
    also have "\<dots> = Zero (Type (fs ! i))" using assms(1) by (cases "fs ! i") simp
    finally show ?thesis using pathLoop_counters [OF that(2)] by simp
  qed
  from a b show ?thesis by blast
qed

theorem C6_embedded_records_witness:
  "applyDefaultValues sampleEnv (TStruct [] [Field ''Pagination'' True True [] (TStruct ''Pagination'' paginationFields)])
       (VStruct [VStruct [VInt 0, VInt 0]]) = Returned (VStruct [VStruct [VInt 1, VInt 10]])
   \<and> applyDefaultValues sampleEnv (TStruct ''Pagination'' paginationFields) (VStruct [VInt 0, VInt 0])
       = Returned (VStruct [VInt 1, VInt 10])
   \<and> snd (pathLoop sampleEnv emptyBodyCtx [Field ''Base'' True True [] (TStruct ''Base'' baseFields)] 0
            [VStruct [VInt 0]] 0 0) = Inr ([VStruct [VInt 0]], 0, 0)"
proof -
  let ?fs = "[Field ''Pagination'' True True [] (TStruct ''Pagination'' paginationFields)]"
  have run: "applyDefaultValues sampleEnv (TStruct [] ?fs) (VStruct [VStruct [VInt 0, VInt 0]])
      = Returned (VStruct [VStruct [VInt 1, VInt 10]])"
    by (simp add: eval_defs paginationFields_def)
  have path: "snd (pathLoop sampleEnv emptyBodyCtx [Field ''Base'' True True [] (TStruct ''Base'' baseFields)] 0
            (map Zero_field [Field ''Base'' True True [] (TStruct ''Base'' baseFields)]) 0 0)
          = Inr ([VStruct [VInt 0]], 0, 0)"
    by (simp add: eval_defs pathLoop.simps baseFields_def)
  from C6_embedded_records [of 0 ?fs "[VStruct [VInt 0, VInt 0]]" sampleEnv "[]"
      "[VStruct [VInt 1, VInt 10]]"] run
  have "applyDefaultValues sampleEnv (TStruct ''Pagination'' paginationFields) (VStruct [VInt 0, VInt 0])
       = Returned (VStruct [VInt 1, VInt 10])"
    by simp
  with run path show ?thesis by (simp add: baseFields_def)
qed

theorem C6_embedded_records_counterexample:
  "applyDefaultValues sampleEnv
       (TStruct [] [Field ''Pagination'' True True [] (TPtr (TStruct ''Pagination'' paginationFields))])
       (VStruct [VPtr None])
     = Returned (VStruct [VPtr None])
   \<and> applyDefaultValues sampleEnv (TStruct [] paginationFields) (VStruct [VInt 0, VInt 0])
     = Returned (VStruct [VInt 1, VInt 10])
   \<and> snd (bindingFormValue sampleEnv emptyBodyCtx
            (TStruct [] [Field ''Base'' True True [] (TStruct ''Base'' baseFields)]))
     = Returned (VStruct [VStruct [VInt 0]])
   \<and> snd (bindingFormValue sampleEnv emptyBodyCtx (TStruct [] baseFields))
     = Returned (VStruct [VInt 123])"
  by (simp add: eval_defs pathLoop.simps paginationFields_def baseFields_def emptyBodyCtx_def)

theorem C2_default_set_iff_tagged_and_zero_witness:
  "applyDefaultValues sampleEnv (TStruct [] defaultsFields)
       (VStruct [VString [], VInt 0, VPtr None, VString ''a@b''])
     = Returned (VStruct [VString ''John'', VInt 25, VPtr (Some (VBool True)), VString ''a@b''])
   \<and> IsExported (defaultsFields ! 0) \<and> \<not> Anonymous (defaultsFields ! 0)
   \<and> stringToVal sampleEnv ''John'' TString = Inr (VString ''John'')
   \<and> stringToVal sampleEnv ''true'' TBool = Inr (VBool True)
   \<and> IsZero TFloat64 (VFloat 9223372036854775808)
   \<and> applyDefaultValues sampleEnv (TStruct [] rateFields) (VStruct [VFloat 9223372036854775808])
     = Returned (VStruct [VFloat 4609434218613702656])
   \<and> stringToVal sampleEnv ''1.5'' TFloat64 = Inr (VFloat 4609434218613702656)"
proof -
  let ?vs = "[VString [], VInt 0, VPtr None, VString ''a@b'']"
  let ?vs' = "[VString ''John'', VInt 25, VPtr (Some (VBool True)), VString ''a@b'']"
  have run: "applyDefaultValues sampleEnv (TStruct [] defaultsFields) (VStruct ?vs) = Returned (VStruct ?vs')"
    by (simp add: eval_defs sampleEnv_def defaultsFields_def)
  have len: "length ?vs = length defaultsFields"
    by (simp add: defaultsFields_def)
  from C2_default_set_iff_tagged_and_zero [OF run len, of 0]
  have name: "stringToVal sampleEnv ''John'' TString = Inr (VString ''John'')"
    by (simp add: defaultsFields_def Lookup_def)
  from C2_default_set_iff_tagged_and_zero [OF run len, of 2]
  have active: "stringToVal sampleEnv ''true'' TBool = Inr (VBool True)"
    by (simp add: defaultsFields_def Lookup_def)
  have ex: "IsExported (defaultsFields ! 0) \<and> \<not> Anonymous (defaultsFields ! 0)"
    by (simp add: defaultsFields_def)
  have zero: "IsZero TFloat64 (VFloat 9223372036854775808)"
    by simp
  have rate: "applyDefaultValues sampleEnv (TStruct [] rateFields) (VStruct [VFloat 9223372036854775808])
     = Returned (VStruct [VFloat 4609434218613702656])"
    by (simp add: eval_defs sampleEnv_def SetFloat_def rateFields_def)
  have rlen: "length [VFloat 9223372036854775808] = length rateFields"
    by (simp add: rateFields_def)
  from C2_default_set_iff_tagged_and_zero [OF rate rlen, of 0]
  have coerced: "stringToVal sampleEnv ''1.5'' TFloat64 = Inr (VFloat 4609434218613702656)"
    by (simp add: rateFields_def Lookup_def)
  from run ex name active zero rate coerced show ?thesis by simp
qed

theorem C2_skipped_default_counterexample:
  "Lookup (Field ''age'' False False [(''default'', ''25'')] TInt) ''default'' = Some ''25''
   \<and> IsZero TInt (VInt 0)
   \<and> applyDefaultValues sampleEnv (TStruct [] [Field ''age'' False False [(''default'', ''25'')] TInt])
        (VStruct [VInt 0])
     = Returned (VStruct [VInt 0])
   \<and> applyDefaultValues sampleEnv (TStruct [] [Field ''Age'' True False [(''default'', ''abc'')] TInt])
        (VStruct [VInt 0])
     = Failed (FieldDefaultError ''Age''
         (ConvertDefaultError ''abc'' ''Age'' (NumError ''ParseInt'' ''abc'' ErrSyntax)))
   \<and> IsZero (TStruct ''Pagination'' paginationFields) (VStruct [VInt 0, VInt 0])
   \<and> applyDefaultValues sampleEnv
        (TStruct [] [Field ''Pagination'' True True [(''default'', ''x'')] (TStruct ''Pagination'' paginationFields)])
        (VStruct [VStruct [VInt 0, VInt 0]])
     = Returned (VStruct [VStruct [VInt 1, VInt 10]])
   \<and> stringToVal sampleEnv ''x'' (TStruct ''Pagination'' paginationFields)
     = Inl (UnsupportedConversion ''x'' (TStruct ''Pagination'' paginationFields))"
  by (simp add: eval_defs paginationFields_def)

theorem C3_unsupported_path_type_fails_per_request_witness:
  "Field ''Tags'' True False [(''path'', ''id'')] (TMap TString TString) \<in> set tagsFields
   \<and> unsupportedType (TMap TString TString)
   \<and> Param emptyBodyCtx ''id'' \<noteq> []
   \<and> FormBindingGinHandlerFunc sampleEnv (Func [TPtr ginCtxTy, TPtr (TStruct [] tagsFields)] [TIface, TError])
       = Inr \<lparr>inNum = 2, outNum = 2, ins = [TPtr ginCtxTy, TPtr (TStruct [] tagsFields)],
              outs = [TIface, TError]\<rparr>
   \<and> (\<exists>k er. responses (closure sampleEnv None
                 \<lparr>inNum = 2, outNum = 2, ins = [TPtr ginCtxTy, TPtr (TStruct [] tagsFields)],
                  outs = [TIface, TError]\<rparr>
                 (\<lambda>arg. (IfaceNil :: string iface, IfaceNil)) emptyBodyCtx)
               = [HandleError (IfaceHolds (BindingError (PathParameterError k er)))])"
proof -
  let ?sf = "Field ''Tags'' True False [(''path'', ''id'')] (TMap TString TString)"
  let ?reg = "\<lparr>inNum = 2, outNum = 2, ins = [TPtr ginCtxTy, TPtr (TStruct [] tagsFields)],
              outs = [TIface, TError]\<rparr>"
  have h1: "?sf \<in> set tagsFields" by (simp add: tagsFields_def)
  have h2: "pathKeyOf ?sf = Some ''id''" by (simp add: pathKeyOf_def Lookup_def)
  have h3: "unsupportedType (Type ?sf)" by (simp add: unsupportedType_def ConvertibleTo_def timeTy_def)
  have h4: "TPtr (TStruct [] tagsFields) = TStruct [] tagsFields
      \<or> TPtr (TStruct [] tagsFields) = TPtr (TStruct [] tagsFields)" by simp
  have h5: "Param emptyBodyCtx ''id'' \<noteq> []" by (simp add: emptyBodyCtx_def)
  have h6: "ImplementsError sampleEnv TError" by (simp add: sampleEnv_def)
  from C3_unsupported_path_type_fails_per_request [OF h4, of sampleEnv "[TIface, TError]" ?sf "''id''"
      emptyBodyCtx ?reg None "\<lambda>arg. (IfaceNil :: string iface, IfaceNil)"] h1 h2 h3 h5 h6
  show ?thesis by auto
qed

theorem C3_registration_accepts_unsupported_counterexample:
  "hasTag ''path'' (Field ''Tags'' True False [(''path'', ''id'')] (TMap TString TString))
   \<and> FormBindingGinHandlerFunc sampleEnv (Func [TPtr ginCtxTy, TStruct [] tagsFields] [TError])
       = Inr \<lparr>inNum = 2, outNum = 1, ins = [TPtr ginCtxTy, TStruct [] tagsFields], outs = [TError]\<rparr>
   \<and> closure sampleEnv None
         \<lparr>inNum = 2, outNum = 1, ins = [TPtr ginCtxTy, TStruct [] tagsFields], outs = [TError]\<rparr>
         (\<lambda>arg. (IfaceNil :: string iface, IfaceNil)) emptyBodyCtx
       = [Ctx (CallParam ''id''),
          HandleError (IfaceHolds (BindingError (PathParameterError ''id''
             (UnsupportedConversion ''123'' (TMap TString TString)))))]"
  by (simp add: hasTag_def FormBindingGinHandlerFunc_def sampleEnv_def closure_def eval_defs
      pathLoop.simps tagsFields_def emptyBodyCtx_def)

theorem C4_stage_order_witness:
  "fst (bindingFormValue sampleEnv mixedCtx (TStruct [] mixedFields))
     = [CallParam ''user_id'', CallBindQuery, CallShouldBindHeader, CallShouldBind]
   \<and> specDecode sampleEnv mixedCtx [] mixedFields
     = ([CallParam ''user_id'', CallBindQuery, CallShouldBindHeader, CallShouldBind],
        Inr (VStruct [VInt 123, VInt 1, VString ''Bearer token123'', VString ''John'',
                      VString ''john@example.com'']))
   \<and> (\<exists>sf\<in>set mixedFields. hasTag ''form'' sf)
   \<and> (\<exists>sf\<in>set mixedFields. hasTag ''header'' sf)
   \<and> fst (bindingFormValue sampleEnv malformedBodyCtx nameRecordTy) = [CallShouldBind]
   \<and> CallShouldBind \<in> set (fst (bindingFormValue sampleEnv emptyBodyCtx (TStruct [] [])))"
proof -
  have tr: "fst (bindingFormValue sampleEnv mixedCtx (TStruct [] mixedFields))
     = [CallParam ''user_id'', CallBindQuery, CallShouldBindHeader, CallShouldBind]"
    by (simp add: eval_defs pathLoop.simps mixedFields_def mixedCtx_def)
  have run: "bindSources sampleEnv mixedCtx [] mixedFields
     = ([CallParam ''user_id'', CallBindQuery, CallShouldBindHeader, CallShouldBind],
        Inr (VStruct [VInt 123, VInt 1, VString ''Bearer token123'', VString ''John'',
                      VString ''john@example.com'']))"
    by (simp add: eval_defs pathLoop.simps mixedFields_def mixedCtx_def)
  have tr2: "fst (bindingFormValue sampleEnv malformedBodyCtx nameRecordTy) = [CallShouldBind]"
    by (simp add: eval_defs pathLoop.simps nameRecordTy_def malformedBodyCtx_def)
  have ok: "\<forall>er. snd (bindingFormValue sampleEnv emptyBodyCtx (TStruct [] [])) \<noteq> Failed er"
    by (simp add: eval_defs pathLoop.simps emptyBodyCtx_def)
  have shape: "TStruct [] mixedFields = TStruct [] mixedFields
      \<or> TStruct [] mixedFields = TPtr (TStruct [] mixedFields)"
    by simp
  note mixed = C4_stage_order [OF shape, of sampleEnv mixedCtx]
  from mixed tr
  have tags: "(\<exists>sf\<in>set mixedFields. hasTag ''form'' sf) \<and> (\<exists>sf\<in>set mixedFields. hasTag ''header'' sf)"
    by simp
  from mixed
  have "bindSources sampleEnv mixedCtx [] mixedFields = specDecode sampleEnv mixedCtx [] mixedFields"
    by blast
  with run
  have staged: "specDecode sampleEnv mixedCtx [] mixedFields
     = ([CallParam ''user_id'', CallBindQuery, CallShouldBindHeader, CallShouldBind],
        Inr (VStruct [VInt 123, VInt 1, VString ''Bearer token123'', VString ''John'',
                      VString ''john@example.com'']))"
    by simp
  from C4_stage_order [of "TStruct [] []" "[]" "[]" sampleEnv emptyBodyCtx] ok
  have "CallShouldBind \<in> set (fst (bindingFormValue sampleEnv emptyBodyCtx (TStruct [] [])))"
    by blast
  with tags staged show ?thesis using tr tr2 by simp
qed

lemma setTagged_keeps_untagged:
  assumes "i < length fs" and "Lookup (fs ! i) tag = None"
  shows "keepsField (TStruct n fs) i (setTagged tag src)"
  unfolding keepsField_def
proof (intro allI impI)
  fix v v'
  assume run: "setTagged tag src (TStruct n fs) v = Inr v'"
  then obtain vs where v: "v = VStruct vs"
    by (cases v) (auto simp: setTagged_def)
  show "fieldAt i v' = fieldAt i v"
    using run assms by (auto simp: v setTagged_def fieldAt_def)
qed

theorem C5_path_field_kept_by_framing_binders_witness:
  "keepsField (TStruct [] idNameFields) 0 (ShouldBind annCtx)
   \<and> keptThrough annCtx (TStruct [] idNameFields) (specLaterStages idNameFields) 0 (VStruct [VInt 123, VString []])
   \<and> snd (bindSources sampleEnv annCtx [] idNameFields) = Inr (VStruct [VInt 123, VString ''Ann''])
   \<and> stringToVal sampleEnv (Param annCtx ''id'') TInt = Inr (VInt 123)
   \<and> fieldAt 0 (VStruct [VInt 123, VString ''Ann'']) = Some (VInt 123)"
proof -
  have k3: "keepsField (TStruct [] idNameFields) 0 (ShouldBind annCtx)"
    using setTagged_keeps_untagged [of 0 idNameFields "''json''" "[]" "[''name'' \<mapsto> VString ''Ann'']"]
    by (simp add: annCtx_def idNameFields_def Lookup_def)
  have run: "snd (bindSources sampleEnv annCtx [] idNameFields) = Inr (VStruct [VInt 123, VString ''Ann''])"
    by (simp add: eval_defs pathLoop.simps idNameFields_def annCtx_def)
  have path: "snd (pathLoop sampleEnv annCtx idNameFields 0 (map Zero_field idNameFields) 0 0)
      = Inr ([VInt 123, VString []], 0, 0)"
    by (simp add: eval_defs pathLoop.simps idNameFields_def annCtx_def)
  have kept: "keptThrough annCtx (TStruct [] idNameFields) (specLaterStages idNameFields) 0
      (VStruct [VInt 123, VString []])"
    by (simp add: specLaterStages_def hasTag_def fieldAt_def eval_defs idNameFields_def annCtx_def)
  have i: "0 < length idNameFields" and key: "pathKeyOf (idNameFields ! 0) = Some ''id''"
    by (simp_all add: idNameFields_def pathKeyOf_def Lookup_def)
  from C5_path_field_kept_by_framing_binders [OF i key run] path kept
  have "stringToVal sampleEnv (Param annCtx ''id'') (Type (idNameFields ! 0)) = Inr (VInt 123)
     \<and> fieldAt 0 (VStruct [VInt 123, VString ''Ann'']) = Some (VInt 123)"
    by auto
  then have "stringToVal sampleEnv (Param annCtx ''id'') TInt = Inr (VInt 123)
     \<and> fieldAt 0 (VStruct [VInt 123, VString ''Ann'']) = Some (VInt 123)"
    by (simp add: idNameFields_def)
  with k3 kept run show ?thesis by simp
qed

theorem C5_body_overwrites_path_field_counterexample:
  "pathKeyOf (idFields ! 0) = Some ''id''
   \<and> snd (pathLoop sampleEnv overwriteCtx idFields 0 (map Zero_field idFields) 0 0) = Inr ([VInt 123], 0, 0)
   \<and> bindSources sampleEnv overwriteCtx [] idFields
       = ([CallParam ''id'', CallShouldBind], Inr (VStruct [VInt 7]))"
  by (simp add: pathKeyOf_def eval_defs pathLoop.simps idFields_def overwriteCtx_def)

subsection \<open>Pointer and integer targets of the coercer\<close>

lemma stringToVal_pointer:
  "stringToVal e s (TPtr t) = (if s = [] then Inr (VPtr None) else Inl (UnsupportedConversion s (TPtr t)))"
  by (simp add: stringToVal_def ConvertibleTo_def timeTy_def)

text \<open>
  Claim C7 (a pointer field bound from a string source stays nil on an empty value and is
  allocated and set on a coercible one) at the record
  \<^verbatim>\<open>struct{ ID *int `path:"id"` }\<close> and the path \<^verbatim>\<open>id=123\<close>: \<^verbatim>\<open>stringToVal\<close> has no pointer
  case, so the decode fails with an unsupported-conversion error although \<^verbatim>\<open>"123"\<close>
  coerces to the pointee type.
\<close>

theorem C7_pointer_path_parameter_rejected:
  "bindingFormValue sampleEnv emptyBodyCtx (TStruct [] optionalIdFields)
     = ([CallParam ''id''],
        Failed (PathParameterError ''id'' (UnsupportedConversion ''123'' (TPtr TInt))))
   \<and> stringToVal sampleEnv ''123'' TInt = Inr (VInt 123)"
  by (simp add: eval_defs pathLoop.simps optionalIdFields_def emptyBodyCtx_def)

text \<open>
  Claim C8 (every signed and unsigned integer target is parsed in base 10, overflow
  being an error) at \<^verbatim>\<open>int16\<close> and at the narrow targets: \<^verbatim>\<open>reflect.Int16\<close> is missing
  from the switch, so \<^verbatim>\<open>"5"\<close> is an unsupported conversion for \<^verbatim>\<open>int16\<close> (while
  \<^verbatim>\<open>uint16\<close> parses it), and the parse is always 64 bits wide, so \<^verbatim>\<open>"300"\<close> is stored
  in an \<^verbatim>\<open>int8\<close> or \<^verbatim>\<open>uint8\<close> as 44 without an error.
\<close>

theorem C8_int16_unsupported_and_narrow_overflow_wraps:
  "stringToVal e ''5'' TInt16 = Inl (UnsupportedConversion ''5'' TInt16)
   \<and> stringToVal e ''5'' TUint16 = Inr (VUint 5)
   \<and> stringToVal e ''300'' TInt8 = Inr (VInt 44)
   \<and> stringToVal e ''300'' TUint8 = Inr (VUint 44)"
  by (simp add: eval_defs)

end
